theory Spec2Isabelle
  imports Complex_Main "HOL-Library.Product_Lexorder"
begin

section \<open>JavaScript strings\<close>

text \<open>
  A JavaScript string is modelled as a list of code units below 256 (Latin-1), one
  \<^typ>\<open>char\<close> each, so that \<open>length\<close> is the \<open>.length\<close> of the source. Code units from
  256 on are outside the model.
\<close>

abbreviation nl :: char where
  "nl \<equiv> CHR 0x0A"

text \<open>White space and line terminators of ECMAScript below 256: what \<open>trim()\<close> strips and
  what \<open>\s\<close> matches.\<close>

definition is_space :: "char \<Rightarrow> bool" where
  "is_space c =
     (c = CHR 0x09 \<or> c = CHR 0x0A \<or> c = CHR 0x0B \<or> c = CHR 0x0C \<or> c = CHR 0x0D \<or>
      c = CHR 0x20 \<or> c = CHR 0xA0)"

text \<open>The class \<open>\w\<close>: ASCII letters, digits and the underscore.\<close>

definition is_word :: "char \<Rightarrow> bool" where
  "is_word c =
     (let n = (of_char c :: nat)
      in (48 \<le> n \<and> n \<le> 57) \<or> (65 \<le> n \<and> n \<le> 90) \<or> n = 95 \<or> (97 \<le> n \<and> n \<le> 122))"

text \<open>Line terminators below 256; the regular expression \<open>.\<close> matches everything else.\<close>

definition is_line_terminator :: "char \<Rightarrow> bool" where
  "is_line_terminator c = (c = CHR 0x0A \<or> c = CHR 0x0D)"

definition trim :: "string \<Rightarrow> string" where
  "trim s = rev (dropWhile is_space (rev (dropWhile is_space s)))"

definition startsWith :: "string \<Rightarrow> string \<Rightarrow> bool" where
  "startsWith s t = (take (length t) s = t)"

fun includes_str :: "string \<Rightarrow> string \<Rightarrow> bool" where
  "includes_str [] t = (t = [])"
| "includes_str (c # s) t = (startsWith (c # s) t \<or> includes_str s t)"

text \<open>\<open>s.toLowerCase()\<close> on Latin-1: \<open>A\<close>-\<open>Z\<close> and the capital letters 0xC0-0xDE (without
  the multiplication sign 0xD7) move up by 32.\<close>

definition lower_char :: "char \<Rightarrow> char" where
  "lower_char c =
     (let n = (of_char c :: nat)
      in if (65 \<le> n \<and> n \<le> 90) \<or> (192 \<le> n \<and> n \<le> 222 \<and> n \<noteq> 215) then char_of (n + 32) else c)"

definition toLowerCase :: "string \<Rightarrow> string" where
  "toLowerCase s = map lower_char s"

text \<open>\<open>s.split('\n')\<close>: never the empty list; the empty string gives one empty line.\<close>

fun split_nl :: "string \<Rightarrow> string list" where
  "split_nl [] = [[]]"
| "split_nl (c # cs) =
     (if c = nl then [] # split_nl cs
      else (case split_nl cs of [] \<Rightarrow> [[c]] | l # ls \<Rightarrow> (c # l) # ls))"

text \<open>\<open>xs.join(sep)\<close>.\<close>

fun join :: "string list \<Rightarrow> string \<Rightarrow> string" where
  "join [] sep = []"
| "join [x] sep = x"
| "join (x # y # ys) sep = x @ sep @ join (y # ys) sep"

text \<open>A non-negative integer inside a template literal: its decimal digits.\<close>

fun show_nat :: "nat \<Rightarrow> string" where
  "show_nat n =
     (if n < 10 then [''0123456789'' ! n]
      else show_nat (n div 10) @ [''0123456789'' ! (n mod 10)])"

declare show_nat.simps [simp del]

text \<open>A string in a condition is true when it is not empty.\<close>

definition truthy :: "string \<Rightarrow> bool" where
  "truthy s = (s \<noteq> [])"

section \<open>Regular expressions\<close>

text \<open>
  The regular expressions of the source use literals, the classes \<open>\s\<close>, \<open>\w\<close>, \<open>.\<close> and
  \<open>[^)]\<close>, greedy repetition of a single class, greedy \<open>?\<close>, alternation and capture groups.
  \<open>run r s\<close> lists every way \<open>r\<close> matches at the start of \<open>s\<close>, in the order in which a
  backtracking matcher tries them, each with its captures (group number and text) and the
  rest of the string: the head of the list is the match that JavaScript reports.
\<close>

datatype cclass = Lit char | Space | Word | Not_lit char | Dot

fun cc :: "cclass \<Rightarrow> char \<Rightarrow> bool" where
  "cc (Lit a) c = (c = a)"
| "cc Space c = is_space c"
| "cc Word c = is_word c"
| "cc (Not_lit a) c = (c \<noteq> a)"
| "cc Dot c = (\<not> is_line_terminator c)"

datatype regex =
    Eps
  | Str string
  | Rep cclass nat "nat option"
  | Seq regex regex
  | Alt regex regex
  | Opt regex
  | Grp nat regex

type_synonym captures = "(nat \<times> string) list"

fun run :: "regex \<Rightarrow> string \<Rightarrow> (captures \<times> string) list" where
  "run Eps s = [([], s)]"
| "run (Str t) s = (if startsWith s t then [([], drop (length t) s)] else [])"
| "run (Rep k lo hi) s =
     (let n = length (takeWhile (cc k) s);
          m = (case hi of None \<Rightarrow> n | Some h \<Rightarrow> min n h)
      in map (\<lambda>j. ([], drop j s)) (rev [lo..<Suc m]))"
| "run (Seq r1 r2) s =
     concat (map (\<lambda>(c1, s1). map (\<lambda>(c2, s2). (c1 @ c2, s2)) (run r2 s1)) (run r1 s))"
| "run (Alt r1 r2) s = run r1 s @ run r2 s"
| "run (Opt r) s = run r s @ [([], s)]"
| "run (Grp g r) s = map (\<lambda>(c, s'). ((g, take (length s - length s') s) # c, s')) (run r s)"

text \<open>\<open>\s*\<close>, \<open>\s+\<close> and \<open>\w+\<close>.\<close>

abbreviation ws0 :: regex where "ws0 \<equiv> Rep Space 0 None"
abbreviation ws1 :: regex where "ws1 \<equiv> Rep Space 1 None"
abbreviation w1 :: regex where "w1 \<equiv> Rep Word 1 None"

definition seqs :: "regex list \<Rightarrow> regex" where
  "seqs rs = foldr Seq rs Eps"

definition alts :: "regex \<Rightarrow> regex list \<Rightarrow> regex" where
  "alts r rs = foldl Alt r rs"

text \<open>\<open>/^r/.test(s)\<close> and the truth value of \<open>s.match(/^r/)\<close>: a match at position 0.\<close>

definition test_anchored :: "regex \<Rightarrow> string \<Rightarrow> bool" where
  "test_anchored r s = (run r s \<noteq> [])"

text \<open>\<open>s.match(/^r/)\<close>: the captures of the first match at position 0.\<close>

definition match_anchored :: "regex \<Rightarrow> string \<Rightarrow> captures option" where
  "match_anchored r s = (case run r s of [] \<Rightarrow> None | (c, _) # _ \<Rightarrow> Some c)"

text \<open>\<open>s.match(/r/)\<close> without anchor: the first start position with a match, from the left,
  the end of the string included.\<close>

fun match_search :: "regex \<Rightarrow> string \<Rightarrow> captures option" where
  "match_search r [] = match_anchored r []"
| "match_search r (c # s) =
     (case match_anchored r (c # s) of Some m \<Rightarrow> Some m | None \<Rightarrow> match_search r s)"

section \<open>The chunk extractor (codebase-processor.js)\<close>

datatype chunk_type = File_overview | Function | Class | Route | Documentation | Configuration

text \<open>A chunk object. A property that the source leaves out, or sets to \<open>null\<close>, is \<open>None\<close>.\<close>

record chunk =
  ctype :: chunk_type
  content :: string
  filePath :: string
  fileName :: string
  fileType :: string
  repository :: string
  startLine :: nat
  endLine :: nat
  description :: "string option"
  functionName :: "string option"
  className :: "string option"

datatype error = Error string

text \<open>
  What the extractor takes from Node and from the language: reading a file, the walk over
  a directory (loadGitignore with scanDirectory: the supported files that the ignore
  rules leave), the \<open>path\<close> module, and \<open>JSON.parse\<close> with \<open>JSON.stringify(_, null, 2)\<close> over
  a type \<open>'j\<close> of parsed values. They are parameters of the model; a call that can throw
  returns a sum.
\<close>

record 'j runtime =
  fs_readFile :: "string \<Rightarrow> error + string"
  scan_files :: "string \<Rightarrow> error + string list"
  path_relative :: "string \<Rightarrow> string \<Rightarrow> string"
  path_basename :: "string \<Rightarrow> string"
  path_extname :: "string \<Rightarrow> string"
  json_parse :: "string \<Rightarrow> error + 'j"
  json_stringify :: "'j \<Rightarrow> string"

definition isCodeFile :: "string \<Rightarrow> bool" where
  "isCodeFile extension =
     (extension \<in> set [''.js'', ''.ts'', ''.jsx'', ''.tsx'', ''.py'', ''.java'', ''.cpp'', ''.c'',
        ''.h'', ''.cs'', ''.php'', ''.rb'', ''.go'', ''.rs''])"

text \<open>\<open>typeMap[extension] || 'unknown'\<close>. An extension is empty or begins with a dot, so the
  lookup never meets an inherited property of the object.\<close>

definition typeMap :: "(string \<times> string) list" where
  "typeMap =
     [(''.js'', ''javascript''), (''.ts'', ''typescript''), (''.jsx'', ''react''),
      (''.tsx'', ''react-typescript''), (''.py'', ''python''), (''.java'', ''java''),
      (''.cpp'', ''cpp''), (''.c'', ''c''), (''.h'', ''c-header''), (''.cs'', ''csharp''),
      (''.php'', ''php''), (''.rb'', ''ruby''), (''.go'', ''go''), (''.rs'', ''rust''),
      (''.md'', ''markdown''), (''.json'', ''json''), (''.yaml'', ''yaml''), (''.yml'', ''yaml'')]"

definition getFileType :: "string \<Rightarrow> string" where
  "getFileType extension =
     (case map_of typeMap extension of Some t \<Rightarrow> t | None \<Rightarrow> ''unknown'')"

subsection \<open>createFileOverview\<close>

text \<open>\<open>/^(import|require|from|#include|using)/\<close> and \<open>/^(import|require|from|package)/\<close>.\<close>

definition import_re :: regex where
  "import_re =
     alts (Str ''import'') [Str ''require'', Str ''from'', Str ''#include'', Str ''using'']"

definition package_re :: regex where
  "package_re = alts (Str ''import'') [Str ''require'', Str ''from'', Str ''package'']"

definition is_import_line :: "string \<Rightarrow> bool" where
  "is_import_line line = test_anchored import_re (trim line)"

text \<open>The test of the comment scan, on a trimmed line.\<close>

definition is_top_comment :: "string \<Rightarrow> bool" where
  "is_top_comment line =
     (startsWith line ''//'' \<or> startsWith line ''/*'' \<or> startsWith line ''#'' \<or>
      startsWith line [CHR 0x22, CHR 0x22, CHR 0x22])"

text \<open>The loop over the first \<open>Math.min(20, lines.length)\<close> lines, with \<open>topComments\<close> as
  accumulator; \<open>break\<close> returns it.\<close>

fun topComments_loop :: "string list \<Rightarrow> string list \<Rightarrow> string list" where
  "topComments_loop [] topComments = topComments"
| "topComments_loop (l # ls) topComments =
     (let line = trim l
      in if is_top_comment line then topComments_loop ls (topComments @ [line])
         else if truthy line \<and> \<not> test_anchored package_re line then topComments
         else topComments_loop ls topComments)"

definition createFileOverview :: "string \<Rightarrow> string \<Rightarrow> string" where
  "createFileOverview cont path =
     (let lines = split_nl cont;
          totalLines = length lines;
          imports = take 10 (filter is_import_line lines);
          topComments = topComments_loop (take (min 20 (length lines)) lines) []
      in ''File: '' @ path @ [nl] @
         ''Total Lines: '' @ show_nat totalLines @ [nl] @
         [nl] @
         (if length topComments > 0 then ''Comments:'' @ [nl] @ join topComments [nl] @ [nl] else []) @
         [nl] @
         (if length imports > 0
          then ''Imports/Dependencies:'' @ [nl] @ join imports [nl] @ [nl] else []) @
         [nl] @
         [nl] @
         ''Preview:'' @ [nl] @
         join (take 30 lines) [nl])"

subsection \<open>extractCodeChunks\<close>

text \<open>The pattern families, in the order of \<open>Object.entries(patterns)\<close>. A group that is only
  tested, never read, is written without \<open>Grp\<close>.\<close>

definition function_patterns :: "regex list" where
  "function_patterns =
     [seqs [ws0,
        alts (seqs [Str ''function'', ws1, w1])
          [seqs [Str ''const'', ws1, w1, ws0, Str ''='', ws0, Str ''('',
                 Rep (Not_lit CHR '')'') 0 None, Str '')'', ws0, Str ''=>''],
           seqs [Str ''def'', ws1, w1],
           seqs [Str ''public'', ws1, w1, ws1, w1, ws0, Str ''('']]],
      seqs [ws0,
        alts (seqs [Str ''async'', ws1, Str ''function'', ws1, w1])
          [seqs [Str ''export'', ws1, Opt (seqs [Str ''async'', ws1]), Str ''function'', ws1, w1]]],
      seqs [ws0,
        alts (seqs [w1, ws0, Str '':'', ws0, Str ''function''])
          [seqs [w1, ws0, Str '':'', ws0, Str ''('', Rep (Not_lit CHR '')'') 0 None, Str '')'',
                 ws0, Str ''=>'']]]]"

definition class_patterns :: "regex list" where
  "class_patterns =
     [seqs [ws0,
        alts (seqs [Str ''class'', ws1, w1])
          [seqs [Str ''interface'', ws1, w1], seqs [Str ''type'', ws1, w1]]],
      seqs [ws0, Str ''export'', ws1, Opt (seqs [Str ''default'', ws1]), Str ''class'', ws1, w1]]"

definition route_patterns :: "regex list" where
  "route_patterns =
     [seqs [ws0,
        alts (seqs [Str ''app.'',
                alts (Str ''get'') [Str ''post'', Str ''put'', Str ''delete'', Str ''patch'']])
          [seqs [Str ''router.'',
                alts (Str ''get'') [Str ''post'', Str ''put'', Str ''delete'', Str ''patch'']]]],
      seqs [ws0, Str ''@'',
        alts (Str ''Get'') [Str ''Post'', Str ''Put'', Str ''Delete'', Str ''Patch''],
        ws0, Str ''('']]"

definition patterns :: "(chunk_type \<times> regex list) list" where
  "patterns = [(Function, function_patterns), (Class, class_patterns), (Route, route_patterns)]"

text \<open>extractFunctionName: the first of five patterns found anywhere in the line gives its
  group 1.\<close>

definition functionName_patterns :: "regex list" where
  "functionName_patterns =
     [seqs [Str ''function'', ws1, Grp 1 w1],
      seqs [Str ''const'', ws1, Grp 1 w1, ws0, Str ''=''],
      seqs [Str ''def'', ws1, Grp 1 w1],
      seqs [Grp 1 w1, ws0, Str '':'', ws0, Str ''function''],
      seqs [Grp 1 w1, ws0, Str '':'', ws0, Str ''('', Rep (Not_lit CHR '')'') 0 None, Str '')'',
            ws0, Str ''=>'']]"

fun first_group1 :: "regex list \<Rightarrow> string \<Rightarrow> string option" where
  "first_group1 [] line = None"
| "first_group1 (p # ps) line =
     (case match_search p line of Some m \<Rightarrow> map_of m 1 | None \<Rightarrow> first_group1 ps line)"

definition extractFunctionName :: "string \<Rightarrow> string option" where
  "extractFunctionName line = first_group1 functionName_patterns line"

text \<open>extractClassName: \<open>/class\s+(\w+)|interface\s+(\w+)/\<close>, then \<open>match[1] || match[2]\<close>.\<close>

definition className_re :: regex where
  "className_re =
     Alt (seqs [Str ''class'', ws1, Grp 1 w1]) (seqs [Str ''interface'', ws1, Grp 2 w1])"

definition extractClassName :: "string \<Rightarrow> string option" where
  "extractClassName line =
     (case match_search className_re line of
        None \<Rightarrow> None
      | Some m \<Rightarrow>
          (case map_of m 1 of
             Some s \<Rightarrow> if truthy s then Some s else map_of m 2
           | None \<Rightarrow> map_of m 2))"

text \<open>The state of the scan: the variables \<open>chunks\<close>, \<open>currentChunk\<close>, \<open>braceCount\<close> and
  \<open>inMultilineComment\<close>.\<close>

record code_state =
  chunks :: "chunk list"
  currentChunk :: "chunk option"
  braceCount :: int
  inMultilineComment :: bool

text \<open>\<open>if (currentChunk && currentChunk.content.trim()) chunks.push(currentChunk)\<close>.\<close>

definition push_current :: "chunk list \<Rightarrow> chunk option \<Rightarrow> chunk list" where
  "push_current cs cur =
     (case cur of
        Some c \<Rightarrow> if truthy (trim (content c)) then cs @ [c] else cs
      | None \<Rightarrow> cs)"

text \<open>One pattern family on one line: the inner loop stops at its first pattern that matches,
  saves the previous chunk and starts a new one. The outer loop goes on to the next family.\<close>

definition try_family ::
  "'j runtime \<Rightarrow> string \<Rightarrow> string \<Rightarrow> string \<Rightarrow> nat \<Rightarrow> string \<Rightarrow>
   chunk_type \<times> regex list \<Rightarrow> code_state \<Rightarrow> code_state" where
  "try_family rt path name repo i line fam st =
     (if list_ex (\<lambda>pattern. test_anchored pattern line) (snd fam)
      then st\<lparr>chunks := push_current (chunks st) (currentChunk st),
              currentChunk := Some
                \<lparr>ctype = fst fam,
                 content = line @ [nl],
                 filePath = path,
                 fileName = name,
                 fileType = getFileType (path_extname rt name),
                 repository = repo,
                 startLine = i + 1,
                 endLine = i + 1,
                 description = None,
                 functionName = extractFunctionName line,
                 className = (if fst fam = Class then extractClassName line else None)\<rparr>,
              braceCount := 0\<rparr>
      else st)"

definition count_char :: "char \<Rightarrow> string \<Rightarrow> int" where
  "count_char c line = int (length (filter (\<lambda>x. x = c) line))"

text \<open>The part of the loop body after the pattern check.\<close>

definition append_line :: "nat \<Rightarrow> string \<Rightarrow> code_state \<Rightarrow> code_state" where
  "append_line i line st =
     (case currentChunk st of
        None \<Rightarrow> st
      | Some c \<Rightarrow>
          (let c' = c\<lparr>content := content c @ line @ [nl], endLine := i + 1\<rparr>;
               b = braceCount st + count_char CHR ''{'' line - count_char CHR ''}'' line
           in if b \<le> 0 \<and> length (content c') > 100
              then st\<lparr>chunks := chunks st @ [c'], currentChunk := None, braceCount := b\<rparr>
              else st\<lparr>currentChunk := Some c', braceCount := b\<rparr>))"

text \<open>The two tests for the delimiters of a block comment, which set and clear the flag.\<close>

definition comment_flags :: "string \<Rightarrow> code_state \<Rightarrow> code_state" where
  "comment_flags trimmedLine st =
     (let st1 = (if includes_str trimmedLine ''/*'' then st\<lparr>inMultilineComment := True\<rparr> else st)
      in if includes_str trimmedLine ''*/'' then st1\<lparr>inMultilineComment := False\<rparr> else st1)"

text \<open>\<open>if (currentChunk) currentChunk.content += line + '\n'\<close>, for a comment line or an empty
  line.\<close>

definition append_comment_line :: "string \<Rightarrow> code_state \<Rightarrow> code_state" where
  "append_comment_line line st =
     (case currentChunk st of
        Some c \<Rightarrow> st\<lparr>currentChunk := Some (c\<lparr>content := content c @ line @ [nl]\<rparr>)\<rparr>
      | None \<Rightarrow> st)"

text \<open>The body of the loop for line \<open>i\<close> (from 0). Inside a block comment \<open>continue\<close> leaves
  the line out.\<close>

definition code_step ::
  "'j runtime \<Rightarrow> string \<Rightarrow> string \<Rightarrow> string \<Rightarrow> nat \<Rightarrow> string \<Rightarrow> code_state \<Rightarrow> code_state" where
  "code_step rt path name repo i line st =
     (let trimmedLine = trim line;
          st2 = comment_flags trimmedLine st
      in if inMultilineComment st2 then st2
         else if startsWith trimmedLine ''//'' \<or> startsWith trimmedLine ''#'' \<or> \<not> truthy trimmedLine
         then append_comment_line line st2
         else append_line i line (fold (try_family rt path name repo i line) patterns st2))"

fun code_loop ::
  "'j runtime \<Rightarrow> string \<Rightarrow> string \<Rightarrow> string \<Rightarrow> nat \<Rightarrow> string list \<Rightarrow> code_state \<Rightarrow> code_state" where
  "code_loop rt path name repo i [] st = st"
| "code_loop rt path name repo i (line # rest) st =
     code_loop rt path name repo (Suc i) rest (code_step rt path name repo i line st)"

definition extractCodeChunks :: "'j runtime \<Rightarrow> string \<Rightarrow> string \<Rightarrow> string \<Rightarrow> string \<Rightarrow> chunk list" where
  "extractCodeChunks rt cont path name repo =
     (let st = code_loop rt path name repo 0 (split_nl cont)
                 \<lparr>chunks = [], currentChunk = None, braceCount = 0, inMultilineComment = False\<rparr>
      in push_current (chunks st) (currentChunk st))"

subsection \<open>extractDocumentationChunks\<close>

text \<open>\<open>/^(#{1,6})\s+(.+)/\<close>.\<close>

definition header_re :: regex where
  "header_re = seqs [Grp 1 (Rep (Lit CHR ''#'') 1 (Some 6)), ws1, Grp 2 (Rep Dot 1 None)]"

record doc_state =
  sections :: "chunk list"
  currentSection :: "chunk option"

definition doc_step :: "string \<Rightarrow> string \<Rightarrow> string \<Rightarrow> nat \<Rightarrow> string \<Rightarrow> doc_state \<Rightarrow> doc_state" where
  "doc_step path name repo i line st =
     (case match_anchored header_re line of
        Some headerMatch \<Rightarrow>
          \<lparr>sections = push_current (sections st) (currentSection st),
           currentSection = Some
             \<lparr>ctype = Documentation,
              content = line @ [nl],
              filePath = path,
              fileName = name,
              fileType = ''markdown'',
              repository = repo,
              startLine = i + 1,
              endLine = i + 1,
              description = map_of headerMatch 2,
              functionName = None,
              className = None\<rparr>\<rparr>
      | None \<Rightarrow>
          (case currentSection st of
             Some c \<Rightarrow>
               st\<lparr>currentSection := Some (c\<lparr>content := content c @ line @ [nl], endLine := i + 1\<rparr>)\<rparr>
           | None \<Rightarrow> st))"

fun doc_loop :: "string \<Rightarrow> string \<Rightarrow> string \<Rightarrow> nat \<Rightarrow> string list \<Rightarrow> doc_state \<Rightarrow> doc_state" where
  "doc_loop path name repo i [] st = st"
| "doc_loop path name repo i (line # rest) st =
     doc_loop path name repo (Suc i) rest (doc_step path name repo i line st)"

definition extractDocumentationChunks :: "string \<Rightarrow> string \<Rightarrow> string \<Rightarrow> string \<Rightarrow> chunk list" where
  "extractDocumentationChunks cont path name repo =
     (let st = doc_loop path name repo 0 (split_nl cont) \<lparr>sections = [], currentSection = None\<rparr>
      in push_current (sections st) (currentSection st))"

subsection \<open>extractConfigChunks\<close>

text \<open>The body of the \<open>try\<close>: \<open>JSON.parse\<close> throws on a text that is not JSON.\<close>

definition extractConfigChunks_try ::
  "'j runtime \<Rightarrow> string \<Rightarrow> string \<Rightarrow> string \<Rightarrow> string \<Rightarrow> error + chunk list" where
  "extractConfigChunks_try rt cont path name repo =
     (case json_parse rt cont of
        Inl e \<Rightarrow> Inl e
      | Inr config \<Rightarrow>
          Inr [\<lparr>ctype = Configuration,
                content = json_stringify rt config,
                filePath = path,
                fileName = name,
                fileType = ''json'',
                repository = repo,
                startLine = 1,
                endLine = length (split_nl cont),
                description = Some (''Configuration file: '' @ name),
                functionName = None,
                className = None\<rparr>])"

text \<open>With its \<open>catch\<close>, which returns the empty array.\<close>

definition extractConfigChunks :: "'j runtime \<Rightarrow> string \<Rightarrow> string \<Rightarrow> string \<Rightarrow> string \<Rightarrow> chunk list" where
  "extractConfigChunks rt cont path name repo =
     (case extractConfigChunks_try rt cont path name repo of
        Inl e \<Rightarrow> []
      | Inr cs \<Rightarrow> cs)"

subsection \<open>processFile and processRepository\<close>

text \<open>\<open>.replace(/\\/g, '/')\<close>.\<close>

definition slashes :: "string \<Rightarrow> string" where
  "slashes s = map (\<lambda>c. if c = CHR 0x5C then CHR ''/'' else c) s"

definition processFile_try :: "'j runtime \<Rightarrow> string \<Rightarrow> string \<Rightarrow> string \<Rightarrow> error + chunk list" where
  "processFile_try rt file repositoryPath repositoryName =
     (case fs_readFile rt file of
        Inl e \<Rightarrow> Inl e
      | Inr cont \<Rightarrow>
          (let relativePath = slashes (path_relative rt repositoryPath file);
               name = path_basename rt file;
               fileExtension = toLowerCase (path_extname rt file);
               overview =
                 \<lparr>ctype = File_overview,
                  content = createFileOverview cont relativePath,
                  filePath = relativePath,
                  fileName = name,
                  fileType = getFileType fileExtension,
                  repository = repositoryName,
                  startLine = 1,
                  endLine = length (split_nl cont),
                  description = Some (''Overview of '' @ name),
                  functionName = None,
                  className = None\<rparr>
           in Inr (overview #
                (if isCodeFile fileExtension
                 then extractCodeChunks rt cont relativePath name repositoryName
                 else if fileExtension = ''.md''
                 then extractDocumentationChunks cont relativePath name repositoryName
                 else if fileExtension = ''.json''
                 then extractConfigChunks rt cont relativePath name repositoryName
                 else []))))"

definition processFile :: "'j runtime \<Rightarrow> string \<Rightarrow> string \<Rightarrow> string \<Rightarrow> chunk list" where
  "processFile rt file repositoryPath repositoryName =
     (case processFile_try rt file repositoryPath repositoryName of
        Inl e \<Rightarrow> []
      | Inr cs \<Rightarrow> cs)"

text \<open>processRepository: the files of the walk, then the loop over them, which adds the
  chunks of each file; an error of the walk is thrown again. processFile catches every
  error itself.\<close>

definition processRepository :: "'j runtime \<Rightarrow> string \<Rightarrow> string \<Rightarrow> error + chunk list" where
  "processRepository rt repositoryPath repositoryName =
     (case scan_files rt repositoryPath of
        Inl e \<Rightarrow> Inl e
      | Inr files \<Rightarrow>
          Inr (concat (map (\<lambda>file. processFile rt file repositoryPath repositoryName) files)))"

section \<open>JavaScript numbers\<close>

text \<open>
  A score is a JavaScript number, an IEEE 754 double. A finite double is written as the
  rational number it stands for, and \<open>-0\<close> as \<open>0\<close>: the product with 1.5, the comparisons
  and the sort do not tell the two zeros apart. \<open>NaN\<close> is left out: a score is read from
  a JSON response, which has neither \<open>NaN\<close> nor an infinity, and the code only multiplies
  it by 1.5, which gives an infinity on overflow and never \<open>NaN\<close>.
\<close>

datatype number = Neg_infinity | Finite rat | Infinity

text \<open>The powers of 2 with an integer exponent, by repeated squaring.\<close>

function pow2 :: "int \<Rightarrow> rat" where
  "pow2 k =
     (if k < 0 then 1 / pow2 (- k)
      else if k = 0 then 1
      else if even k then pow2 (k div 2) ^ 2
      else 2 * pow2 (k - 1))"
  by pat_completeness auto
termination
  by (relation "measure (\<lambda>k. if k < 0 then nat (- k) + 1 else nat k)") auto

declare pow2.simps [simp del]

text \<open>The number of binary digits of a positive integer.\<close>

function bit_length :: "int \<Rightarrow> int" where
  "bit_length n = (if n \<le> 0 then 0 else 1 + bit_length (n div 2))"
  by pat_completeness auto
termination
  by (relation "measure nat") auto

declare bit_length.simps [simp del]

text \<open>The exponent of a positive rational: the greatest \<open>k\<close> with \<open>2 ^ k \<le> a\<close>. The quotient
  of a numerator of \<open>m\<close> digits and a denominator of \<open>n\<close> digits lies between \<open>2 ^ (m - n - 1)\<close>
  and \<open>2 ^ (m - n + 1)\<close>.\<close>

definition floor_log2 :: "rat \<Rightarrow> int" where
  "floor_log2 a =
     (let k = bit_length (fst (quotient_of a)) - bit_length (snd (quotient_of a))
      in if pow2 k \<le> a then k else k - 1)"

text \<open>Rounding to the nearest integer, a tie to the even one.\<close>

definition round_half_even :: "rat \<Rightarrow> int" where
  "round_half_even q =
     (let f = \<lfloor>q\<rfloor>; d = q - of_int f
      in if d < 1 / 2 then f else if 1 / 2 < d then f + 1 else if even f then f else f + 1)"

text \<open>
  The double nearest to a rational, as every arithmetic operation and every decimal literal
  rounds: with the exponent \<open>e\<close> of the rational, not below -1022, the doubles around it
  are the multiples \<open>n * 2 ^ (e - 52)\<close>, and \<open>n\<close> is the nearest integer, a tie going to the
  even one. The result is an infinity from \<open>2 ^ 1024\<close> on, which is reached when \<open>e\<close> is
  above 1023, or is 1023 and \<open>n\<close> has come to \<open>2 ^ 53\<close>.
\<close>

definition round_double :: "rat \<Rightarrow> number" where
  "round_double r =
     (if r = 0 then Finite 0
      else (let a = \<bar>r\<bar>;
                e = max (floor_log2 a) (- 1022);
                n = round_half_even (a * pow2 (52 - e))
            in if 1023 < e \<or> (e = 1023 \<and> 2 ^ 53 \<le> n)
               then (if 0 < r then Infinity else Neg_infinity)
               else Finite ((if 0 < r then 1 else - 1) * of_int n * pow2 (e - 52))))"

text \<open>A rational that is a double.\<close>

definition is_double :: "rat \<Rightarrow> bool" where
  "is_double r = (round_double r = Finite r)"

text \<open>\<open>x * 1.5\<close>; the literal 1.5 is a double.\<close>

fun times_1_5 :: "number \<Rightarrow> number" where
  "times_1_5 (Finite r) = round_double (r * (3 / 2))"
| "times_1_5 Infinity = Infinity"
| "times_1_5 Neg_infinity = Neg_infinity"

text \<open>\<open>x < y\<close>, and \<open>x > y\<close> as \<open>y < x\<close>.\<close>

fun number_less :: "number \<Rightarrow> number \<Rightarrow> bool" where
  "number_less (Finite x) (Finite y) = (x < y)"
| "number_less (Finite x) Infinity = True"
| "number_less (Finite x) Neg_infinity = False"
| "number_less Neg_infinity y = (y \<noteq> Neg_infinity)"
| "number_less Infinity y = False"

text \<open>The literal \<open>0.3\<close>.\<close>

definition literal_0_3 :: number where
  "literal_0_3 = round_double (3 / 10)"

text \<open>
  The key of the sort with the comparator \<open>(a, b) => b - a\<close>: the difference of two doubles
  is negative exactly when \<open>b < a\<close> and positive exactly when \<open>a < b\<close>; it is zero, or \<open>NaN\<close>
  for two equal infinities, which the sort reads as zero, exactly when \<open>a\<close> and \<open>b\<close> are
  equal. So the sort puts the greater number first, and a smaller key is a greater number.
\<close>

fun descending_key :: "number \<Rightarrow> int \<times> rat" where
  "descending_key Infinity = (- 1, 0)"
| "descending_key (Finite r) = (0, - r)"
| "descending_key Neg_infinity = (1, 0)"

text \<open>\<open>x <= y\<close>: the numbers of the model are totally ordered.\<close>

definition number_le :: "number \<Rightarrow> number \<Rightarrow> bool" where
  "number_le x y = (x = y \<or> number_less x y)"

section \<open>Retrieval and ranking (rag-service.js, opensearch-service.js)\<close>

record metadata =
  startLine :: nat
  endLine :: nat
  functionName :: "string option"
  className :: "string option"
  description :: "string option"

text \<open>The \<open>_source\<close> of a hit: the indexed document without its embedding.\<close>

record source_doc =
  content :: string
  filePath :: string
  fileName :: string
  fileType :: string
  chunkType :: string
  repository :: string
  branch :: string
  timestamp :: string
  metadata :: "metadata option"

record hit =
  hit_id :: string
  hit_score :: number
  hit_source :: source_doc

text \<open>\<open>{id: hit._id, score: hit._score, ...hit._source}\<close>.\<close>

record candidate = source_doc +
  cand_id :: string
  score :: number

text \<open>\<open>{...chunk, adjustedScore: relevanceScore}\<close>.\<close>

record ranked = candidate +
  adjustedScore :: number

text \<open>The body of the search request, and the client of the index: it answers with hits or
  throws.\<close>

record search_body =
  body_size :: nat
  multi_match_query :: string
  knn_vector :: "number list"
  knn_k :: nat
  filter_repository :: "string option"

type_synonym search_client = "search_body \<Rightarrow> error + hit list"

text \<open>A value that may be \<open>null\<close> or \<open>undefined\<close>, in a condition.\<close>

definition truthy_opt :: "string option \<Rightarrow> bool" where
  "truthy_opt v = (case v of None \<Rightarrow> False | Some s \<Rightarrow> truthy s)"

text \<open>hybridSearch; \<open>filters\<close> has the one property \<open>repository\<close>.\<close>

definition hybridSearch ::
  "search_client \<Rightarrow> string \<Rightarrow> number list \<Rightarrow> nat \<Rightarrow> string option \<Rightarrow> error + candidate list" where
  "hybridSearch client queryText queryEmbedding limit filters =
     (case client
             \<lparr>body_size = limit,
              multi_match_query = queryText,
              knn_vector = queryEmbedding,
              knn_k = limit,
              filter_repository = (if truthy_opt filters then filters else None)\<rparr> of
        Inl e \<Rightarrow> Inl e
      | Inr hits \<Rightarrow>
          Inr (map (\<lambda>h. source_doc.extend (hit_source h) (candidate.fields (hit_id h) (hit_score h)))
                 hits))"

text \<open>The four boosts of filterAndRankResults, in the order of the source; \<open>q\<close> is the
  query in lower case.\<close>

definition setup_query :: "string \<Rightarrow> bool" where
  "setup_query q = (includes_str q ''setup'' \<or> includes_str q ''install'' \<or> includes_str q ''configure'')"

definition setup_chunk :: "candidate \<Rightarrow> bool" where
  "setup_chunk c =
     (source_doc.fileName c = ''package.json'' \<or> source_doc.fileName c = ''README.md'' \<or>
      chunkType c = ''documentation'')"

definition api_query :: "string \<Rightarrow> bool" where
  "api_query q = (includes_str q ''api'' \<or> includes_str q ''endpoint'' \<or> includes_str q ''route'')"

definition api_chunk :: "candidate \<Rightarrow> bool" where
  "api_chunk c = (includes_str (source_doc.filePath c) ''routes'' \<or> chunkType c = ''route'')"

definition database_query :: "string \<Rightarrow> bool" where
  "database_query q = (includes_str q ''database'' \<or> includes_str q ''model'' \<or> includes_str q ''schema'')"

definition database_chunk :: "candidate \<Rightarrow> bool" where
  "database_chunk c = (includes_str (source_doc.filePath c) ''models'' \<or> chunkType c = ''class'')"

definition auth_query :: "string \<Rightarrow> bool" where
  "auth_query q = (includes_str q ''auth'' \<or> includes_str q ''login'' \<or> includes_str q ''user'')"

definition auth_chunk :: "candidate \<Rightarrow> bool" where
  "auth_chunk c =
     (includes_str (source_doc.filePath c) ''auth'' \<or>
      includes_str (toLowerCase (source_doc.content c)) ''auth'')"

text \<open>The callback of \<open>map\<close>: \<open>relevanceScore\<close> after the four conditional products
  \<open>relevanceScore *= 1.5\<close>, each of them a product of doubles.\<close>

definition relevanceScore :: "string \<Rightarrow> candidate \<Rightarrow> number" where
  "relevanceScore queryLower c =
     (let r0 = score c;
          r1 = (if setup_query queryLower \<and> setup_chunk c then times_1_5 r0 else r0);
          r2 = (if api_query queryLower \<and> api_chunk c then times_1_5 r1 else r1);
          r3 = (if database_query queryLower \<and> database_chunk c then times_1_5 r2 else r2);
          r4 = (if auth_query queryLower \<and> auth_chunk c then times_1_5 r3 else r3)
      in r4)"

definition rank_chunk :: "string \<Rightarrow> candidate \<Rightarrow> ranked" where
  "rank_chunk queryLower c = candidate.extend c (ranked.fields (relevanceScore queryLower c))"

text \<open>\<open>map\<close>, then \<open>sort\<close> with the comparator \<open>b.adjustedScore - a.adjustedScore\<close> (the sort of
  arrays is stable), then \<open>filter\<close> with \<open>chunk.adjustedScore > 0.3\<close>.\<close>

definition filterAndRankResults :: "candidate list \<Rightarrow> string \<Rightarrow> ranked list" where
  "filterAndRankResults searchResults query =
     (let queryLower = toLowerCase query
      in filter (\<lambda>chunk. number_less literal_0_3 (adjustedScore chunk))
           (sort_key (\<lambda>chunk. descending_key (adjustedScore chunk))
              (map (rank_chunk queryLower) searchResults)))"

definition searchRelevantContext ::
  "search_client \<Rightarrow> string \<Rightarrow> number list \<Rightarrow> string option \<Rightarrow> error + ranked list" where
  "searchRelevantContext client query queryEmbedding repositoryFilter =
     (let filters = (if truthy_opt repositoryFilter then repositoryFilter else None)
      in case hybridSearch client query queryEmbedding 15 filters of
           Inl e \<Rightarrow> Inl e
         | Inr searchResults \<Rightarrow> Inr (take 8 (filterAndRankResults searchResults query)))"

subsection \<open>buildContext\<close>

text \<open>\<open>chunk.metadata?.functionName\<close> and \<open>chunk.metadata?.className\<close>.\<close>

definition metadata_functionName :: "ranked \<Rightarrow> string option" where
  "metadata_functionName chunk = (case metadata chunk of None \<Rightarrow> None | Some m \<Rightarrow> functionName m)"

definition metadata_className :: "ranked \<Rightarrow> string option" where
  "metadata_className chunk = (case metadata chunk of None \<Rightarrow> None | Some m \<Rightarrow> className m)"

abbreviation fence :: string where
  "fence \<equiv> [CHR 0x60, CHR 0x60, CHR 0x60]"

text \<open>\<open>${chunk.content.substring(0, 1000)}${chunk.content.length > 1000 ? '...' : ''}\<close>.\<close>

definition rendered_content :: "ranked \<Rightarrow> string" where
  "rendered_content chunk =
     take 1000 (source_doc.content chunk) @
     (if length (source_doc.content chunk) > 1000 then ''...'' else [])"

text \<open>The last template of the callback: the content of the chunk between two fences.\<close>

definition content_block :: "ranked \<Rightarrow> string" where
  "content_block chunk =
     ''**Content:**'' @ [nl] @ fence @ [nl] @ rendered_content chunk @ [nl] @ fence @ [nl] @ [nl]"

text \<open>The callback of \<open>forEach\<close>, on the text built so far (the variable of that name).\<close>

definition add_chunk :: "string \<Rightarrow> nat \<times> ranked \<Rightarrow> string" where
  "add_chunk ctx ic =
     (let index = fst ic; chunk = snd ic;
          c1 = ctx @ ''### '' @ show_nat (index + 1) @ ''. '' @ source_doc.fileName chunk @
                 '' ('' @ chunkType chunk @ '')'' @ [nl];
          c2 = c1 @ ''**File Path:** '' @ source_doc.filePath chunk @ [nl];
          c3 = (if truthy_opt (metadata_functionName chunk)
                then c2 @ ''**Function:** '' @ the (metadata_functionName chunk) @ [nl] else c2);
          c4 = (if truthy_opt (metadata_className chunk)
                then c3 @ ''**Class:** '' @ the (metadata_className chunk) @ [nl] else c3)
      in c4 @ content_block chunk)"

definition no_context :: string where
  "no_context = ''No specific codebase context found for this query.''"

definition buildContext :: "ranked list \<Rightarrow> string" where
  "buildContext relevantChunks =
     (if length relevantChunks = 0 then no_context
      else foldl add_chunk (''## Relevant Codebase Information:'' @ [nl] @ [nl])
             (enumerate 0 relevantChunks))"

section \<open>Ingestion (repository-api.js, ingest-repository.js)\<close>

text \<open>
  The services around the job: \<open>git.clone\<close>; the embedding of a chunk and its indexing,
  which may fail for one chunk and not for another (the number is the position of the
  chunk in \<open>chunks\<close>); and \<open>Math.round((processedCount / chunks.length) * 100)\<close>, a
  computation on doubles.
\<close>

record 'v ingest_env =
  git_clone :: "string \<Rightarrow> string \<Rightarrow> string \<Rightarrow> error + unit"
  generateCodeEmbeddings :: "nat \<Rightarrow> chunk \<Rightarrow> error + 'v"
  indexCodeChunk :: "nat \<Rightarrow> chunk \<Rightarrow> 'v \<Rightarrow> error + unit"
  round_percent :: "nat \<Rightarrow> nat \<Rightarrow> nat"

text \<open>
  The state of a job: the items that updateIngestionStatus has sent to the table of
  ingestions (the identifier of the job, the status and the message; the last one is the
  status of the job), the name and the \<open>totalChunks\<close> that saveRepositoryMetadata has sent,
  and the counter. Both helpers catch the failure of their own \<open>put\<close>, so neither throws;
  the time stamps of the items are left out.
\<close>

record job_state =
  status_log :: "(string \<times> string \<times> string) list"
  saved_metadata :: "(string \<times> nat) list"
  processedCount :: nat

definition updateIngestionStatus :: "string \<Rightarrow> string \<Rightarrow> string \<Rightarrow> job_state \<Rightarrow> job_state" where
  "updateIngestionStatus ingestionId status message st =
     st\<lparr>status_log := status_log st @ [(ingestionId, status, message)]\<rparr>"

definition saveRepositoryMetadata :: "string \<Rightarrow> nat \<Rightarrow> job_state \<Rightarrow> job_state" where
  "saveRepositoryMetadata repositoryName totalChunks st =
     st\<lparr>saved_metadata := saved_metadata st @ [(repositoryName, totalChunks)]\<rparr>"

text \<open>
  The callback of \<open>batch.map\<close> for the chunk at position \<open>k\<close>, with its \<open>try\<close> and \<open>catch\<close>.
  The callbacks of a batch run interleaved under \<open>Promise.all\<close>; each only adds one to the
  counter, so that the model runs them one after the other.
\<close>

definition process_chunk :: "'v ingest_env \<Rightarrow> nat \<times> chunk \<Rightarrow> nat \<Rightarrow> nat" where
  "process_chunk env kc n =
     (case generateCodeEmbeddings env (fst kc) (snd kc) of
        Inl e \<Rightarrow> n
      | Inr embedding \<Rightarrow>
          (case indexCodeChunk env (fst kc) (snd kc) embedding of
             Inl e \<Rightarrow> n
           | Inr u \<Rightarrow> n + 1))"

definition process_batch :: "'v ingest_env \<Rightarrow> nat \<Rightarrow> chunk list \<Rightarrow> nat \<Rightarrow> nat" where
  "process_batch env i batch n = fold (process_chunk env) (enumerate i batch) n"

text \<open>The loop over the batches in processRepositoryAsync, \<open>batchSize = 10\<close>.\<close>

function index_loop ::
  "'v ingest_env \<Rightarrow> string \<Rightarrow> chunk list \<Rightarrow> nat \<Rightarrow> job_state \<Rightarrow> job_state" where
  "index_loop env ingestionId cs i st =
     (if i < length cs
      then (let batch = take 10 (drop i cs);
                n = process_batch env i batch (processedCount st);
                progress = round_percent env n (length cs)
            in index_loop env ingestionId cs (i + 10)
                 (updateIngestionStatus ingestionId ''processing''
                    (''Indexing chunks... '' @ show_nat progress @ ''%'')
                    (st\<lparr>processedCount := n\<rparr>)))
      else st)"
  by pat_completeness auto
termination
  by (relation "measure (\<lambda>(env, ingestionId, cs, i, st). length cs - i)") auto

declare index_loop.simps [simp del]

text \<open>The loop of the command-line script, \<open>batchSize = 5\<close>: the same callback, no status.\<close>

function script_loop :: "'v ingest_env \<Rightarrow> chunk list \<Rightarrow> nat \<Rightarrow> nat \<Rightarrow> nat" where
  "script_loop env cs i n =
     (if i < length cs
      then script_loop env cs (i + 5) (process_batch env i (take 5 (drop i cs)) n)
      else n)"
  by pat_completeness auto
termination
  by (relation "measure (\<lambda>(env, cs, i, n). length cs - i)") auto

declare script_loop.simps [simp del]

text \<open>The \<open>if (localPath)\<close> with \<open>git.clone\<close>: the path of the repository, or the error thrown
  by the clone.\<close>

definition clone_result ::
  "'v ingest_env \<Rightarrow> string \<Rightarrow> string \<Rightarrow> string option \<Rightarrow> string \<Rightarrow> error + string" where
  "clone_result env repositoryUrl branchName localPath tempDir =
     (if truthy_opt localPath then Inr (the localPath)
      else (case git_clone env repositoryUrl tempDir branchName of
              Inl e \<Rightarrow> Inl e
            | Inr u \<Rightarrow> Inr tempDir))"

text \<open>The body of the \<open>try\<close> of processRepositoryAsync: the state it reaches, and the error
  if it throws there.\<close>

definition processRepositoryAsync_try ::
  "'j runtime \<Rightarrow> 'v ingest_env \<Rightarrow> string \<Rightarrow> string \<Rightarrow> string \<Rightarrow> string \<Rightarrow> string option \<Rightarrow>
   string \<Rightarrow> job_state \<times> error option" where
  "processRepositoryAsync_try rt env ingestionId repositoryUrl repositoryName branchName localPath
     tempDir =
     (let st1 = updateIngestionStatus ingestionId ''processing'' ''Cloning repository...''
                  \<lparr>status_log = [], saved_metadata = [], processedCount = 0\<rparr>
      in case clone_result env repositoryUrl branchName localPath tempDir of
           Inl e \<Rightarrow> (st1, Some e)
         | Inr repositoryPath \<Rightarrow>
             (let st2 = updateIngestionStatus ingestionId ''processing''
                          ''Processing code files...'' st1
              in case processRepository rt repositoryPath repositoryName of
                   Inl e \<Rightarrow> (st2, Some e)
                 | Inr cs \<Rightarrow>
                     (let st3 = updateIngestionStatus ingestionId ''processing''
                                  ''Generating embeddings...'' st2;
                          st4 = index_loop env ingestionId cs 0 st3;
                          st5 = saveRepositoryMetadata repositoryName (processedCount st4) st4;
                          st6 = updateIngestionStatus ingestionId ''completed''
                                  (''Successfully processed '' @ show_nat (processedCount st4) @
                                   '' chunks'') st5
                      in (st6, None))))"

text \<open>With its \<open>catch\<close>, which sets the status \<open>failed\<close> with the message of the error.\<close>

definition error_message :: "error \<Rightarrow> string" where
  "error_message e = (case e of Error m \<Rightarrow> m)"

definition processRepositoryAsync ::
  "'j runtime \<Rightarrow> 'v ingest_env \<Rightarrow> string \<Rightarrow> string \<Rightarrow> string \<Rightarrow> string \<Rightarrow> string option \<Rightarrow>
   string \<Rightarrow> job_state" where
  "processRepositoryAsync rt env ingestionId repositoryUrl repositoryName branchName localPath
     tempDir =
     (case processRepositoryAsync_try rt env ingestionId repositoryUrl repositoryName branchName
             localPath tempDir of
        (st, None) \<Rightarrow> st
      | (st, Some e) \<Rightarrow> updateIngestionStatus ingestionId ''failed'' (error_message e) st)"

section \<open>Notions of the specification\<close>

text \<open>What buildContext writes for a chunk before its content: the heading with the rank,
  the path, and the names of the function and of the class when there are any.\<close>

definition chunk_heading :: "nat \<Rightarrow> ranked \<Rightarrow> string" where
  "chunk_heading index chunk =
     ''### '' @ show_nat (index + 1) @ ''. '' @ source_doc.fileName chunk @
       '' ('' @ chunkType chunk @ '')'' @ [nl] @
     ''**File Path:** '' @ source_doc.filePath chunk @ [nl] @
     (case metadata_functionName chunk of
        Some f \<Rightarrow> if f \<noteq> [] then ''**Function:** '' @ f @ [nl] else []
      | None \<Rightarrow> []) @
     (case metadata_className chunk of
        Some k \<Rightarrow> if k \<noteq> [] then ''**Class:** '' @ k @ [nl] else []
      | None \<Rightarrow> [])"

text \<open>The number of keyword groups that a query in lower case and a candidate trigger, and
  the number of those other than the setup group.\<close>

definition boosts :: "string \<Rightarrow> candidate \<Rightarrow> nat" where
  "boosts q c =
     of_bool (setup_query q \<and> setup_chunk c) + of_bool (api_query q \<and> api_chunk c) +
     of_bool (database_query q \<and> database_chunk c) + of_bool (auth_query q \<and> auth_chunk c)"

definition other_boosts :: "string \<Rightarrow> candidate \<Rightarrow> nat" where
  "other_boosts q c =
     of_bool (api_query q \<and> api_chunk c) + of_bool (database_query q \<and> database_chunk c) +
     of_bool (auth_query q \<and> auth_chunk c)"

text \<open>Candidates and services for the examples. The JavaScript numbers 0.1 and 0.2 are the
  doubles nearest to 1/10 and 1/5; \<open>below_0_2\<close> is the double just below 0.2.\<close>

definition js_0_1 :: number where
  "js_0_1 = round_double (1 / 10)"

definition js_0_2 :: number where
  "js_0_2 = round_double (1 / 5)"

definition below_0_2 :: number where
  "below_0_2 = Finite (7205759403792793 / 2 ^ 55)"

definition example_candidate :: "string \<Rightarrow> string \<Rightarrow> string \<Rightarrow> string \<Rightarrow> number \<Rightarrow> candidate" where
  "example_candidate path name kind cont s =
     \<lparr>content = cont, filePath = path, fileName = name, fileType = ''unknown'',
      chunkType = kind, repository = ''repo'', branch = ''main'', timestamp = [],
      metadata = None, cand_id = ''1'', score = s\<rparr>"

definition example_hit :: "string \<Rightarrow> string \<Rightarrow> string \<Rightarrow> string \<Rightarrow> number \<Rightarrow> hit" where
  "example_hit path name kind cont s =
     \<lparr>hit_id = ''1'', hit_score = s,
      hit_source =
        \<lparr>content = cont, filePath = path, fileName = name, fileType = ''unknown'',
         chunkType = kind, repository = ''repo'', branch = ''main'', timestamp = [],
         metadata = None\<rparr>\<rparr>"

text \<open>A runtime over a table of files (path and content), with a \<open>path\<close> module for simple
  paths under the root and a \<open>JSON\<close> that knows the empty object only. The walk lists the
  files of the table and a file \<open>gone.txt\<close>, which cannot be read; it fails on the directory
  \<open>/gone\<close>.\<close>

definition example_basename :: "string \<Rightarrow> string" where
  "example_basename p = rev (takeWhile (\<lambda>c. c \<noteq> CHR ''/'') (rev p))"

definition example_extname :: "string \<Rightarrow> string" where
  "example_extname p =
     (let b = example_basename p
      in if CHR ''.'' \<in> set b then CHR ''.'' # rev (takeWhile (\<lambda>c. c \<noteq> CHR ''.'') (rev b)) else [])"

definition example_runtime :: "(string \<times> string) list \<Rightarrow> string runtime" where
  "example_runtime files =
     \<lparr>fs_readFile = (\<lambda>p. case map_of files p of Some c \<Rightarrow> Inr c | None \<Rightarrow> Inl (Error ''ENOENT'')),
      scan_files = (\<lambda>p. if p = ''/gone'' then Inl (Error ''scan failed'')
                         else Inr (map fst files @ [p @ ''/gone.txt''])),
      path_relative = (\<lambda>root p. drop (Suc (length root)) p),
      path_basename = example_basename,
      path_extname = example_extname,
      json_parse = (\<lambda>s. if s = ''{}'' then Inr ''{}'' else Inl (Error ''Unexpected token'')),
      json_stringify = (\<lambda>j. j)\<rparr>"

text \<open>A line range inside a file of \<open>n\<close> lines.\<close>

definition in_range :: "nat \<Rightarrow> chunk \<Rightarrow> bool" where
  "in_range n c =
     (1 \<le> chunk.startLine c \<and> chunk.startLine c \<le> chunk.endLine c \<and> chunk.endLine c \<le> n)"

text \<open>The lines \<open>s\<close> to \<open>e\<close> of a file (counted from 1), each once, each followed by a line
  feed as the extractor writes them.\<close>

definition lines_text :: "string list \<Rightarrow> nat \<Rightarrow> nat \<Rightarrow> string" where
  "lines_text lines s e = concat (map (\<lambda>l. l @ [nl]) (take (Suc e - s) (drop (s - 1) lines)))"

text \<open>A header line of a markdown file, and its title.\<close>

definition is_header :: "string \<Rightarrow> bool" where
  "is_header line = (match_anchored header_re line \<noteq> None)"

definition header_title :: "string \<Rightarrow> string option" where
  "header_title line = (case match_anchored header_re line of None \<Rightarrow> None | Some m \<Rightarrow> map_of m 2)"

text \<open>What the scans keep true of the chunks they have built after \<open>i\<close> lines.\<close>

definition code_ok :: "nat \<Rightarrow> chunk \<Rightarrow> bool" where
  "code_ok i c = (in_range i c \<and> (ctype c = Function \<or> ctype c = Class \<or> ctype c = Route))"

definition code_inv :: "nat \<Rightarrow> code_state \<Rightarrow> bool" where
  "code_inv i st =
     (list_all (code_ok i) (chunks st) \<and>
      (case currentChunk st of None \<Rightarrow> True | Some c \<Rightarrow> code_ok i c))"

definition doc_ok :: "string list \<Rightarrow> nat \<Rightarrow> chunk \<Rightarrow> bool" where
  "doc_ok lines i c =
     (in_range i c \<and> ctype c = Documentation \<and>
      is_header (lines ! (chunk.startLine c - 1)) \<and>
      chunk.description c = header_title (lines ! (chunk.startLine c - 1)) \<and>
      chunk.content c = lines_text lines (chunk.startLine c) (chunk.endLine c))"

definition doc_inv :: "string list \<Rightarrow> nat \<Rightarrow> doc_state \<Rightarrow> bool" where
  "doc_inv lines i st =
     (list_all (doc_ok lines i) (sections st) \<and>
      (case currentSection st of None \<Rightarrow> True | Some c \<Rightarrow> doc_ok lines i c \<and> chunk.endLine c = i))"

text \<open>The comment scan of createFileOverview in words: it looks at the first 20 lines, goes
  past blank lines and lines that begin with \<open>import\<close>, \<open>require\<close>, \<open>from\<close> or \<open>package\<close>,
  keeps the comment lines, trimmed, and stops at the first other line.\<close>

definition stops_scan :: "string \<Rightarrow> bool" where
  "stops_scan l =
     (\<not> is_top_comment (trim l) \<and> trim l \<noteq> [] \<and> \<not> test_anchored package_re (trim l))"

definition top_comments :: "string list \<Rightarrow> string list" where
  "top_comments lines =
     filter is_top_comment (map trim (takeWhile (\<lambda>l. \<not> stops_scan l) (take 20 lines)))"

text \<open>The comment scan as the specification words it: it stops at the first line that is
  neither a comment nor an import line.\<close>

definition top_comments_spec :: "string list \<Rightarrow> string list" where
  "top_comments_spec lines =
     filter is_top_comment
       (map trim (takeWhile (\<lambda>l. is_top_comment (trim l) \<or> is_import_line l) (take 20 lines)))"

text \<open>A chunk whose embedding and indexing both succeed, and their number.\<close>

definition item_ok :: "'v ingest_env \<Rightarrow> nat \<times> chunk \<Rightarrow> bool" where
  "item_ok env kc =
     (case generateCodeEmbeddings env (fst kc) (snd kc) of
        Inl e \<Rightarrow> False
      | Inr v \<Rightarrow> (case indexCodeChunk env (fst kc) (snd kc) v of Inl e \<Rightarrow> False | Inr u \<Rightarrow> True))"

definition successes :: "'v ingest_env \<Rightarrow> chunk list \<Rightarrow> nat" where
  "successes env cs = length (filter (item_ok env) (enumerate 0 cs))"

text \<open>Services for the examples: ten text files, the embedding fails for the chunks at
  positions 2 and 5, the indexing for the chunk at position 7.\<close>

definition example_files :: "(string \<times> string) list" where
  "example_files = map (\<lambda>k. (''/local/a'' @ show_nat k @ ''.txt'', ''text'')) [0..<10]"

definition example_env :: "unit ingest_env" where
  "example_env =
     \<lparr>git_clone = (\<lambda>url dir b. if url = [] then Inl (Error ''clone failed'') else Inr ()),
      generateCodeEmbeddings = (\<lambda>k c. if k = 2 \<or> k = 5 then Inl (Error ''throttled'') else Inr ()),
      indexCodeChunk = (\<lambda>k c v. if k = 7 then Inl (Error ''index'') else Inr ()),
      round_percent = (\<lambda>n m. (200 * n + m) div (2 * m))\<rparr>"

text \<open>A repository for the examples: a source file, a markdown file, a JSON file and a
  Python file.\<close>

definition example_repository :: "(string \<times> string) list" where
  "example_repository =
     [(''/r/src/b.js'', ''function f() {'' @ [nl] @ ''/* c'' @ [nl] @ ''*/'' @ [nl] @ ''}''),
      (''/r/README.md'', ''intro'' @ [nl] @ ''# Title'' @ [nl] @ ''text''),
      (''/r/package.json'', ''{}''),
      (''/r/lib.py'', ''# one'' @ [nl, nl] @ ''import os'' @ [nl] @ ''# two'' @ [nl] @ ''x = 1'')]"

definition example_chunk :: chunk where
  "example_chunk = projr (processRepository (example_runtime example_repository) ''/r'' ''repo'') ! 1"

section \<open>The header pattern\<close>

lemma take_takeWhile_all: "j \<le> length (takeWhile P s) \<Longrightarrow> list_all P (take j s)"
proof (induction s arbitrary: j)
  case Nil
  then show ?case by simp
next
  case (Cons a s)
  then show ?case by (cases j) (auto split: if_splits)
qed

lemma length_takeWhile_append: "list_all P w \<Longrightarrow> length w \<le> length (takeWhile P (w @ s))"
  by (induction w) auto

lemma list_all_eq_replicate: "list_all (\<lambda>c. c = a) xs \<Longrightarrow> xs = replicate (length xs) a"
  by (induction xs) auto

lemma run_Rep_elem:
  assumes "(c, s') \<in> set (run (Rep k lo hi) s)"
  shows "c = [] \<and> (\<exists>j. lo \<le> j \<and> j \<le> length s \<and> list_all (cc k) (take j s) \<and>
           (case hi of None \<Rightarrow> True | Some h \<Rightarrow> j \<le> h) \<and> s' = drop j s)"
proof -
  define m where "m = (case hi of None \<Rightarrow> length (takeWhile (cc k) s)
                       | Some h \<Rightarrow> min (length (takeWhile (cc k) s)) h)"
  have m: "m \<le> length (takeWhile (cc k) s)" "case hi of None \<Rightarrow> True | Some h \<Rightarrow> m \<le> h"
    by (simp_all add: m_def split: option.splits)
  from assms have "(c, s') \<in> (\<lambda>j. ([], drop j s)) ` set [lo..<Suc m]"
    by (simp add: Let_def m_def)
  then obtain j where j: "lo \<le> j" "j \<le> m" "c = []" "s' = drop j s"
    by auto
  from j m have t: "j \<le> length (takeWhile (cc k) s)"
    by simp
  then have "list_all (cc k) (take j s)"
    by (rule take_takeWhile_all)
  moreover from t have "j \<le> length s"
    by (meson le_trans length_takeWhile_le)
  moreover from j m have "case hi of None \<Rightarrow> True | Some h \<Rightarrow> j \<le> h"
    by (simp split: option.splits)
  ultimately show ?thesis
    using j by blast
qed

lemma run_Rep_intro:
  assumes "lo \<le> j" "j \<le> length (takeWhile (cc k) s)" "case hi of None \<Rightarrow> True | Some h \<Rightarrow> j \<le> h"
  shows "([], drop j s) \<in> set (run (Rep k lo hi) s)"
proof -
  have "j \<in> set [lo..<Suc (case hi of None \<Rightarrow> length (takeWhile (cc k) s)
                            | Some h \<Rightarrow> min (length (takeWhile (cc k) s)) h)]"
    using assms by (auto split: option.splits)
  then have "([], drop j s) \<in> (\<lambda>j. ([], drop j s)) ` set [lo..<Suc (case hi of None \<Rightarrow> length (takeWhile (cc k) s)
                            | Some h \<Rightarrow> min (length (takeWhile (cc k) s)) h)]"
    by (rule imageI)
  then show ?thesis
    by (simp add: Let_def)
qed

lemma run_Seq_elem:
  "(m, r) \<in> set (run (Seq r1 r2) s) \<longleftrightarrow>
     (\<exists>c1 s1 c2. (c1, s1) \<in> set (run r1 s) \<and> (c2, r) \<in> set (run r2 s1) \<and> m = c1 @ c2)"
  by (simp only: run.simps) force

lemma run_Grp_elem:
  "(m, r) \<in> set (run (Grp g x) s) \<longleftrightarrow>
     (\<exists>c. (c, r) \<in> set (run x s) \<and> m = (g, take (length s - length r) s) # c)"
  by (simp only: run.simps) auto

lemma run_Eps_elem: "(m, r) \<in> set (run Eps s) \<longleftrightarrow> m = [] \<and> r = s"
  by auto

lemma header_re_elem:
  "(m, r) \<in> set (run header_re line) \<longleftrightarrow>
     (\<exists>c1 s1 c2 s2 c3.
        (c1, s1) \<in> set (run (Rep (Lit CHR ''#'') 1 (Some 6)) line) \<and>
        (c2, s2) \<in> set (run ws1 s1) \<and>
        (c3, r) \<in> set (run (Rep Dot 1 None) s2) \<and>
        m = ((1, take (length line - length s1) line) # c1) @ c2 @
            ((2, take (length s2 - length r) s2) # c3))"
  unfolding header_re_def seqs_def foldr.simps o_apply id_apply
  by (simp only: run_Seq_elem run_Grp_elem run_Eps_elem) blast

lemma header_run_form:
  assumes "(m, r) \<in> set (run header_re line)"
  shows "\<exists>k w t. m = [(1, replicate k CHR ''#''), (2, t)] \<and> line = replicate k CHR ''#'' @ w @ t @ r
     \<and> 1 \<le> k \<and> k \<le> 6 \<and> w \<noteq> [] \<and> list_all is_space w
     \<and> t \<noteq> [] \<and> list_all (\<lambda>c. \<not> is_line_terminator c) t"
proof -
  from assms obtain c s1 c2 s2 c' where
    1: "(c, s1) \<in> set (run (Rep (Lit CHR ''#'') 1 (Some 6)) line)"
    and 2: "(c2, s2) \<in> set (run ws1 s1)"
    and 3: "(c', r) \<in> set (run (Rep Dot 1 None) s2)"
    and m: "m = ((1, take (length line - length s1) line) # c) @ c2 @
                ((2, take (length s2 - length r) s2) # c')"
    unfolding header_re_elem by blast
  from run_Rep_elem [OF 1] obtain k where k: "c = []" "1 \<le> k" "k \<le> length line" "k \<le> 6"
    "s1 = drop k line" "list_all (cc (Lit CHR ''#'')) (take k line)"
    by auto
  from k have "list_all (\<lambda>c. c = CHR ''#'') (take k line)" "length (take k line) = k"
    by (simp_all add: list_all_iff)
  then have h: "take k line = replicate k CHR ''#''"
    using list_all_eq_replicate [of "CHR ''#''" "take k line"] by simp
  from run_Rep_elem [OF 2] obtain j where j: "c2 = []" "1 \<le> j" "j \<le> length s1" "s2 = drop j s1"
    "list_all (cc Space) (take j s1)"
    by auto
  from run_Rep_elem [OF 3] obtain i where i: "c' = []" "1 \<le> i" "i \<le> length s2" "r = drop i s2"
    "list_all (cc Dot) (take i s2)"
    by auto
  let ?w = "take j s1" and ?t = "take i s2"
  have a: "take k line @ s1 = line" "take j s1 @ s2 = s1" "take i s2 @ r = s2"
    unfolding k(5) j(4) i(4) by (rule append_take_drop_id)+
  have "line = take k line @ ?w @ ?t @ r"
    by (simp only: a)
  moreover have "m = [(1, take k line), (2, ?t)]"
    using m k j i by simp
  moreover have "?w \<noteq> []" "?t \<noteq> []"
    using j i by auto
  moreover have "list_all is_space ?w" "list_all (\<lambda>c. \<not> is_line_terminator c) ?t"
    using j i by (simp_all add: list_all_iff)
  ultimately show ?thesis
    unfolding h using k by blast
qed

lemma header_form_run:
  assumes "1 \<le> k" "k \<le> 6" "w \<noteq> []" "list_all is_space w"
    "t \<noteq> []" "list_all (\<lambda>c. \<not> is_line_terminator c) t"
  shows "run header_re (replicate k CHR ''#'' @ w @ t @ rest) \<noteq> []"
proof -
  let ?line = "replicate k CHR ''#'' @ w @ t @ rest"
  have "k \<le> length (takeWhile (cc (Lit CHR ''#'')) ?line)"
    using length_takeWhile_append [of "cc (Lit CHR ''#'')" "replicate k CHR ''#''" "w @ t @ rest"]
    by (simp add: list_all_iff)
  with assms have "([], drop k ?line) \<in> set (run (Rep (Lit CHR ''#'') 1 (Some 6)) ?line)"
    by (intro run_Rep_intro) simp_all
  then have 1: "([], w @ t @ rest) \<in> set (run (Rep (Lit CHR ''#'') 1 (Some 6)) ?line)"
    by simp
  have "length w \<le> length (takeWhile (cc Space) (w @ t @ rest))"
    using assms length_takeWhile_append [of "cc Space" w "t @ rest"] by (simp add: list_all_iff)
  moreover have "1 \<le> length w"
    using assms by (cases w) simp_all
  ultimately have "([], drop (length w) (w @ t @ rest)) \<in> set (run ws1 (w @ t @ rest))"
    by (intro run_Rep_intro) simp_all
  then have 2: "([], t @ rest) \<in> set (run ws1 (w @ t @ rest))"
    by simp
  have "length t \<le> length (takeWhile (cc Dot) (t @ rest))"
    using assms length_takeWhile_append [of "cc Dot" t rest] by (simp add: list_all_iff)
  moreover have "1 \<le> length t"
    using assms by (cases t) simp_all
  ultimately have "([], drop (length t) (t @ rest)) \<in> set (run (Rep Dot 1 None) (t @ rest))"
    by (intro run_Rep_intro) simp_all
  then have 3: "([], rest) \<in> set (run (Rep Dot 1 None) (t @ rest))"
    by simp
  from 1 2 3 have "\<exists>m. (m, rest) \<in> set (run header_re ?line)"
    unfolding header_re_elem by blast
  then show ?thesis
    by auto
qed

lemma is_header_iff:
  "is_header line \<longleftrightarrow>
     (\<exists>k w t rest. line = replicate k CHR ''#'' @ w @ t @ rest \<and> 1 \<le> k \<and> k \<le> 6
        \<and> w \<noteq> [] \<and> list_all is_space w \<and> t \<noteq> [] \<and> list_all (\<lambda>c. \<not> is_line_terminator c) t)"
proof
  assume "is_header line"
  then obtain m r where "(m, r) \<in> set (run header_re line)"
    by (auto simp: is_header_def match_anchored_def split: list.splits)
  from header_run_form [OF this] show "\<exists>k w t rest. line = replicate k CHR ''#'' @ w @ t @ rest
      \<and> 1 \<le> k \<and> k \<le> 6 \<and> w \<noteq> [] \<and> list_all is_space w
      \<and> t \<noteq> [] \<and> list_all (\<lambda>c. \<not> is_line_terminator c) t"
    by blast
next
  assume "\<exists>k w t rest. line = replicate k CHR ''#'' @ w @ t @ rest \<and> 1 \<le> k \<and> k \<le> 6
      \<and> w \<noteq> [] \<and> list_all is_space w \<and> t \<noteq> [] \<and> list_all (\<lambda>c. \<not> is_line_terminator c) t"
  then have "run header_re line \<noteq> []"
    using header_form_run by blast
  then show "is_header line"
    by (auto simp: is_header_def match_anchored_def split: list.splits)
qed

lemma header_title_form:
  assumes "is_header line"
  shows "\<exists>k w t rest. header_title line = Some t \<and> line = replicate k CHR ''#'' @ w @ t @ rest
     \<and> 1 \<le> k \<and> k \<le> 6 \<and> w \<noteq> [] \<and> list_all is_space w
     \<and> t \<noteq> [] \<and> list_all (\<lambda>c. \<not> is_line_terminator c) t"
proof -
  from assms obtain m r ms where e: "run header_re line = (m, r) # ms"
    by (auto simp: is_header_def match_anchored_def split: list.splits)
  then have "(m, r) \<in> set (run header_re line)"
    by simp
  from header_run_form [OF this] obtain k w t where
    "m = [(1, replicate k CHR ''#''), (2, t)]" "line = replicate k CHR ''#'' @ w @ t @ r"
    "1 \<le> k" "k \<le> 6" "w \<noteq> []" "list_all is_space w"
    "t \<noteq> []" "list_all (\<lambda>c. \<not> is_line_terminator c) t"
    by blast
  moreover from this e have "header_title line = Some t"
    by (simp add: header_title_def match_anchored_def)
  ultimately show ?thesis
    by blast
qed

section \<open>The scans of the extractor\<close>

lemma length_split_nl: "1 \<le> length (split_nl s)"
  by (induction s) (auto split: list.splits)

lemma in_range_mono: "in_range i c \<Longrightarrow> i \<le> j \<Longrightarrow> in_range j c"
  by (simp add: in_range_def)

lemma code_ok_mono: "code_ok i c \<Longrightarrow> i \<le> j \<Longrightarrow> code_ok j c"
  by (auto simp: code_ok_def intro: in_range_mono)

lemma code_inv_mono: "code_inv i st \<Longrightarrow> i \<le> j \<Longrightarrow> code_inv j st"
  by (auto simp: code_inv_def list_all_iff split: option.splits intro: code_ok_mono)

lemma push_current_all:
  "list_all P cs \<Longrightarrow> (case cur of None \<Rightarrow> True | Some c \<Rightarrow> P c) \<Longrightarrow> list_all P (push_current cs cur)"
  by (auto simp: push_current_def split: option.splits)

lemma try_family_inv:
  assumes "code_inv (Suc i) st" and "fst fam = Function \<or> fst fam = Class \<or> fst fam = Route"
  shows "code_inv (Suc i) (try_family rt path name repo i line fam st)"
proof (cases "list_ex (\<lambda>pattern. test_anchored pattern line) (snd fam)")
  case False
  with assms show ?thesis by (simp add: try_family_def)
next
  case True
  have "list_all (code_ok (Suc i)) (push_current (chunks st) (currentChunk st))"
    using assms(1) by (intro push_current_all) (auto simp: code_inv_def)
  with True assms(2) show ?thesis
    by (simp add: try_family_def code_inv_def code_ok_def in_range_def)
qed

lemma fold_try_family_inv:
  "code_inv (Suc i) st \<Longrightarrow> code_inv (Suc i) (fold (try_family rt path name repo i line) patterns st)"
  by (simp add: patterns_def try_family_inv)

lemma append_line_inv: "code_inv (Suc i) st \<Longrightarrow> code_inv (Suc i) (append_line i line st)"
  by (auto simp: append_line_def code_inv_def code_ok_def in_range_def Let_def
      split: option.splits)

lemma comment_flags_inv: "code_inv j (comment_flags t st) = code_inv j st"
  by (simp add: comment_flags_def code_inv_def Let_def)

lemma append_comment_line_inv: "code_inv j st \<Longrightarrow> code_inv j (append_comment_line line st)"
  by (auto simp: append_comment_line_def code_inv_def code_ok_def in_range_def split: option.splits)

lemma code_step_inv:
  assumes "code_inv i st"
  shows "code_inv (Suc i) (code_step rt path name repo i line st)"
proof -
  have "code_inv (Suc i) (comment_flags (trim line) st)"
    using code_inv_mono [OF assms, of "Suc i"] by (simp add: comment_flags_inv)
  then show ?thesis
    unfolding code_step_def Let_def
    by (simp add: append_comment_line_inv append_line_inv fold_try_family_inv)
qed

lemma code_loop_inv:
  "code_inv i st \<Longrightarrow> code_inv (i + length ls) (code_loop rt path name repo i ls st)"
proof (induction ls arbitrary: i st)
  case Nil
  then show ?case by simp
next
  case (Cons l ls)
  from Cons.prems have "code_inv (Suc i) (code_step rt path name repo i l st)"
    by (rule code_step_inv)
  from Cons.IH [OF this] show ?case by simp
qed

lemma extractCodeChunks_ok:
  "list_all (code_ok (length (split_nl cont))) (extractCodeChunks rt cont path name repo)"
proof -
  let ?st0 = "\<lparr>chunks = [], currentChunk = None, braceCount = 0, inMultilineComment = False\<rparr>"
  have "code_inv 0 ?st0"
    by (simp add: code_inv_def)
  from code_loop_inv [OF this, of "split_nl cont" rt path name repo]
  show ?thesis
    unfolding extractCodeChunks_def Let_def
    by (intro push_current_all) (auto simp: code_inv_def)
qed

lemma lines_text_single:
  "1 \<le> s \<Longrightarrow> s \<le> length lines \<Longrightarrow> lines_text lines s s = lines ! (s - 1) @ [nl]"
proof -
  assume a: "1 \<le> s" "s \<le> length lines"
  then have "take 1 (drop (s - 1) lines) = [lines ! (s - 1)]"
    by (cases "drop (s - 1) lines") (auto simp: nth_via_drop)
  moreover have "Suc s - s = 1"
    by simp
  ultimately show ?thesis
    unfolding lines_text_def by simp
qed

lemma lines_text_snoc:
  assumes "1 \<le> s" "s \<le> Suc e" "e < length lines"
  shows "lines_text lines s (Suc e) = lines_text lines s e @ lines ! e @ [nl]"
proof -
  let ?xs = "drop (s - 1) lines"
  let ?k = "Suc e - s"
  have k: "?k < length ?xs"
    using assms by simp
  have "Suc (Suc e) - s = Suc ?k"
    using assms by simp
  moreover have "take (Suc ?k) ?xs = take ?k ?xs @ [?xs ! ?k]"
    using k by (rule take_Suc_conv_app_nth)
  moreover have "?xs ! ?k = lines ! e"
    using assms by simp
  ultimately show ?thesis
    unfolding lines_text_def by simp
qed

lemma doc_ok_mono: "doc_ok lines i c \<Longrightarrow> i \<le> j \<Longrightarrow> doc_ok lines j c"
  by (auto simp: doc_ok_def intro: in_range_mono)

lemma header_title_match:
  "match_anchored header_re line = Some m \<Longrightarrow> is_header line \<and> header_title line = map_of m 2"
  by (simp add: is_header_def header_title_def)

lemma doc_step_inv:
  assumes inv: "doc_inv lines i st" and i: "i < length lines"
  shows "doc_inv lines (Suc i) (doc_step path name repo i (lines ! i) st)"
proof (cases "match_anchored header_re (lines ! i)")
  case (Some m)
  have "list_all (doc_ok lines (Suc i)) (push_current (sections st) (currentSection st))"
    using inv
    by (intro push_current_all)
      (auto simp: doc_inv_def list_all_iff split: option.splits intro: doc_ok_mono)
  moreover have "lines_text lines (Suc i) (Suc i) = lines ! i @ [nl]"
    using i lines_text_single [of "Suc i" lines] by simp
  ultimately show ?thesis
    using Some header_title_match [OF Some]
    by (simp add: doc_step_def doc_inv_def doc_ok_def in_range_def)
next
  case None
  show ?thesis
  proof (cases "currentSection st")
    case none: None
    with None inv show ?thesis
      by (auto simp: doc_step_def doc_inv_def list_all_iff intro: doc_ok_mono)
  next
    case (Some c)
    with inv have c: "doc_ok lines i c" "chunk.endLine c = i"
      and s: "list_all (doc_ok lines i) (sections st)"
      by (simp_all add: doc_inv_def)
    from c have r: "1 \<le> chunk.startLine c" "chunk.startLine c \<le> Suc i"
      by (simp_all add: doc_ok_def in_range_def)
    have "lines_text lines (chunk.startLine c) (Suc i) =
        lines_text lines (chunk.startLine c) i @ lines ! i @ [nl]"
      using r i by (rule lines_text_snoc)
    moreover have "list_all (doc_ok lines (Suc i)) (sections st)"
      using s by (auto simp: list_all_iff intro: doc_ok_mono)
    ultimately show ?thesis
      using None Some c r
      by (simp add: doc_step_def doc_inv_def doc_ok_def in_range_def)
  qed
qed

lemma doc_loop_inv:
  "doc_inv lines i st \<Longrightarrow> i \<le> length lines \<Longrightarrow> ls = drop i lines \<Longrightarrow>
   doc_inv lines (length lines) (doc_loop path name repo i ls st)"
proof (induction ls arbitrary: i st)
  case Nil
  then show ?case by simp
next
  case (Cons l ls)
  from Cons.prems have d: "drop i lines = l # ls"
    by simp
  have i: "i < length lines"
    using d by (metis drop_all list.distinct(1) not_le)
  have l: "l = lines ! i"
    using d by (metis nth_via_drop)
  have ls: "ls = drop (Suc i) lines"
    using d by (metis drop_Suc list.sel(3) tl_drop)
  have "doc_inv lines (Suc i) (doc_step path name repo i l st)"
    unfolding l using Cons.prems(1) i by (rule doc_step_inv)
  from Cons.IH [OF this _ ls] i show ?case
    by simp
qed

lemma extractDocumentationChunks_ok:
  "list_all (doc_ok (split_nl cont) (length (split_nl cont)))
     (extractDocumentationChunks cont path name repo)"
proof -
  let ?st0 = "\<lparr>sections = [], currentSection = None\<rparr>"
  have "doc_inv (split_nl cont) 0 ?st0"
    by (simp add: doc_inv_def)
  from doc_loop_inv [OF this, of "split_nl cont" path name repo]
  show ?thesis
    unfolding extractDocumentationChunks_def Let_def
    by (intro push_current_all) (auto simp: doc_inv_def split: option.splits)
qed

lemma topComments_loop_eq:
  "topComments_loop ls acc =
     acc @ filter is_top_comment (map trim (takeWhile (\<lambda>l. \<not> stops_scan l) ls))"
  by (induction ls arbitrary: acc) (auto simp: Let_def stops_scan_def truthy_def)

lemma createFileOverview_eq:
  "createFileOverview cont path =
     ''File: '' @ path @ [nl] @
     ''Total Lines: '' @ show_nat (length (split_nl cont)) @ [nl] @ [nl] @
     (if top_comments (split_nl cont) = [] then []
      else ''Comments:'' @ [nl] @ join (top_comments (split_nl cont)) [nl] @ [nl]) @ [nl] @
     (if filter is_import_line (split_nl cont) = [] then []
      else ''Imports/Dependencies:'' @ [nl] @
           join (take 10 (filter is_import_line (split_nl cont))) [nl] @ [nl]) @ [nl] @ [nl] @
     ''Preview:'' @ [nl] @ join (take 30 (split_nl cont)) [nl]"
proof -
  have "take (min 20 (length (split_nl cont))) (split_nl cont) = take 20 (split_nl cont)"
    by (simp add: min_def)
  then show ?thesis
    unfolding createFileOverview_def Let_def topComments_loop_eq top_comments_def
    by (simp add: filter_map o_def)
qed

lemma length_top_comments: "length (top_comments lines) \<le> 20"
proof -
  have "length (top_comments lines) \<le> length (takeWhile (\<lambda>l. \<not> stops_scan l) (take 20 lines))"
    unfolding top_comments_def by (metis length_filter_le length_map)
  also have "\<dots> \<le> length (take 20 lines)"
    by (rule length_takeWhile_le)
  finally show ?thesis by simp
qed

lemma extractConfigChunks_ok:
  "list_all (\<lambda>c. in_range (length (split_nl cont)) c \<and> ctype c = Configuration)
     (extractConfigChunks rt cont path name repo)"
  using length_split_nl [of cont]
  by (simp add: extractConfigChunks_def extractConfigChunks_try_def in_range_def split: sum.splits)

lemma processFile_unreadable:
  "fs_readFile rt file = Inl e \<Longrightarrow> processFile rt file rpath repo = []"
  by (simp add: processFile_def processFile_try_def)

lemma processFile_readable:
  assumes "fs_readFile rt file = Inr cont"
  shows "\<exists>ov rest. processFile rt file rpath repo = ov # rest
     \<and> ctype ov = File_overview \<and> chunk.startLine ov = 1
     \<and> chunk.endLine ov = length (split_nl cont)
     \<and> chunk.content ov = createFileOverview cont (slashes (path_relative rt rpath file))
     \<and> list_all (\<lambda>c. in_range (length (split_nl cont)) c \<and> ctype c \<noteq> File_overview) rest"
proof -
  let ?n = "length (split_nl cont)"
  let ?good = "\<lambda>c. in_range ?n c \<and> ctype c \<noteq> File_overview"
  have code: "list_all ?good (extractCodeChunks rt cont path name repo)" for path name
    using extractCodeChunks_ok [of cont rt path name repo]
    by (auto simp: list_all_iff code_ok_def)
  have doc: "list_all ?good (extractDocumentationChunks cont path name repo)" for path name
    using extractDocumentationChunks_ok [of cont path name repo]
    by (auto simp: list_all_iff doc_ok_def)
  have conf: "list_all ?good (extractConfigChunks rt cont path name repo)" for path name
    using extractConfigChunks_ok [of cont rt path name repo]
    by (auto simp: list_all_iff)
  show ?thesis
    using assms code doc conf
    by (simp add: processFile_def processFile_try_def Let_def)
qed

section \<open>The chunks of a repository\<close>

text \<open>
  C1. Every chunk that processRepository returns comes from one of the files of the walk,
  which could be read, and its lines satisfy \<open>1 \<le> startLine \<le> endLine \<le>\<close> the number of lines
  of the content of that file.
\<close>

theorem chunk_line_ranges:
  "processRepository rt rpath repo = Inr cs \<Longrightarrow>
   \<exists>files. scan_files rt rpath = Inr files \<and>
     (\<forall>c \<in> set cs. \<exists>file \<in> set files. \<exists>cont.
        fs_readFile rt file = Inr cont \<and> c \<in> set (processFile rt file rpath repo) \<and>
        1 \<le> chunk.startLine c \<and> chunk.startLine c \<le> chunk.endLine c \<and>
        chunk.endLine c \<le> length (split_nl cont))"
proof -
  assume r: "processRepository rt rpath repo = Inr cs"
  then obtain files where s: "scan_files rt rpath = Inr files"
    and cs: "cs = concat (map (\<lambda>file. processFile rt file rpath repo) files)"
    by (auto simp: processRepository_def split: sum.splits)
  have "\<exists>file \<in> set files. \<exists>cont.
       fs_readFile rt file = Inr cont \<and> c \<in> set (processFile rt file rpath repo) \<and>
       1 \<le> chunk.startLine c \<and> chunk.startLine c \<le> chunk.endLine c \<and>
       chunk.endLine c \<le> length (split_nl cont)" if "c \<in> set cs" for c
  proof -
    from that cs obtain fl where f: "fl \<in> set files" and c: "c \<in> set (processFile rt fl rpath repo)"
      by auto
    show ?thesis
    proof (cases "fs_readFile rt fl")
      case (Inl e)
      with c show ?thesis
        by (simp add: processFile_unreadable)
    next
      case (Inr cont)
      from processFile_readable [OF Inr, of rpath repo] obtain ov rest where
        p: "processFile rt fl rpath repo = ov # rest"
        and ov: "chunk.startLine ov = 1" "chunk.endLine ov = length (split_nl cont)"
        and rest: "list_all (\<lambda>c. in_range (length (split_nl cont)) c \<and> ctype c \<noteq> File_overview) rest"
        by blast
      have "in_range (length (split_nl cont)) c"
        using c p ov rest length_split_nl [of cont] by (auto simp: in_range_def list_all_iff)
      with f c Inr show ?thesis
        by (auto simp: in_range_def)
    qed
  qed
  with s show ?thesis
    by blast
qed

theorem chunk_line_ranges_witness:
  "map (\<lambda>c. (ctype c, chunk.startLine c, chunk.endLine c))
     (projr (processRepository (example_runtime example_repository) ''/r'' ''repo'')) =
     [(File_overview, 1, 4), (Function, 1, 4), (File_overview, 1, 3), (Documentation, 2, 3),
      (File_overview, 1, 1), (Configuration, 1, 1), (File_overview, 1, 5)]
   \<and> (\<exists>file cont.
        fs_readFile (example_runtime example_repository) file = Inr cont \<and>
        example_chunk \<in> set (processFile (example_runtime example_repository) file ''/r'' ''repo'') \<and>
        1 \<le> chunk.startLine example_chunk \<and>
        chunk.startLine example_chunk \<le> chunk.endLine example_chunk \<and>
        chunk.endLine example_chunk \<le> length (split_nl cont))"
proof -
  let ?rt = "example_runtime example_repository"
  let ?cs = "projr (processRepository ?rt ''/r'' ''repo'')"
  have v: "map (\<lambda>c. (ctype c, chunk.startLine c, chunk.endLine c)) ?cs =
     [(File_overview, 1, 4), (Function, 1, 4), (File_overview, 1, 3), (Documentation, 2, 3),
      (File_overview, 1, 1), (Configuration, 1, 1), (File_overview, 1, 5)]"
    by code_simp
  have "length ?cs = 7"
    using arg_cong [OF v, of length] by simp
  then have "?cs ! 1 \<in> set ?cs"
    by simp
  then have m: "example_chunk \<in> set ?cs"
    unfolding example_chunk_def .
  have e: "processRepository ?rt ''/r'' ''repo'' = Inr ?cs"
    by (simp add: processRepository_def example_runtime_def)
  from chunk_line_ranges [OF e] m have "\<exists>file cont.
        fs_readFile ?rt file = Inr cont \<and>
        example_chunk \<in> set (processFile ?rt file ''/r'' ''repo'') \<and>
        1 \<le> chunk.startLine example_chunk \<and>
        chunk.startLine example_chunk \<le> chunk.endLine example_chunk \<and>
        chunk.endLine example_chunk \<le> length (split_nl cont)"
    by blast
  with v show ?thesis
    by (rule conjI)
qed

text \<open>
  C2 fails on the code, by a slip of the scan. For the four lines below the function chunk
  has \<open>startLine\<close> 1 and \<open>endLine\<close> 4, and its content has the first line twice and lacks
  line 2, which lies inside the block comment: it is not the text of the lines 1 to 4.
\<close>

theorem block_comment_content_divergence:
  "map (\<lambda>c. (ctype c, chunk.startLine c, chunk.endLine c, chunk.content c))
     (extractCodeChunks (example_runtime [])
        (''function f() {'' @ [nl] @ ''/* c'' @ [nl] @ ''*/'' @ [nl] @ ''}'')
        ''src/b.js'' ''b.js'' ''repo'') =
     [(Function, 1, 4, ''function f() {'' @ [nl] @ ''function f() {'' @ [nl] @ ''*/'' @ [nl] @ ''}'' @ [nl])]
   \<and> lines_text (split_nl (''function f() {'' @ [nl] @ ''/* c'' @ [nl] @ ''*/'' @ [nl] @ ''}'')) 1 4 =
       ''function f() {'' @ [nl] @ ''/* c'' @ [nl] @ ''*/'' @ [nl] @ ''}'' @ [nl]"
  by code_simp

text \<open>
  C7, as amended. A file that cannot be read gives no chunk. A file that can be read gives
  one chunk of type \<open>file_overview\<close>, the first of its chunks, with \<open>startLine\<close> 1 and \<open>endLine\<close>
  the number of lines; its content names the path and the number of lines, then the
  comment lines found by the scan of the first 20 lines (which goes past blank lines and
  lines beginning with import, require, from or package, and stops at the first other line
  that is not a comment), then the first 10 import lines of the file, then the first 30
  lines.
\<close>

theorem file_overview_chunk:
  "(case fs_readFile rt file of
      Inl e \<Rightarrow> processFile rt file rpath repo = []
    | Inr cont \<Rightarrow>
        (\<exists>ov rest. processFile rt file rpath repo = ov # rest
           \<and> ctype ov = File_overview
           \<and> list_all (\<lambda>c. ctype c \<noteq> File_overview) rest
           \<and> chunk.startLine ov = 1
           \<and> chunk.endLine ov = length (split_nl cont)
           \<and> chunk.content ov =
               ''File: '' @ slashes (path_relative rt rpath file) @ [nl] @
               ''Total Lines: '' @ show_nat (length (split_nl cont)) @ [nl] @ [nl] @
               (if top_comments (split_nl cont) = [] then []
                else ''Comments:'' @ [nl] @ join (top_comments (split_nl cont)) [nl] @ [nl]) @ [nl] @
               (if filter is_import_line (split_nl cont) = [] then []
                else ''Imports/Dependencies:'' @ [nl] @
                     join (take 10 (filter is_import_line (split_nl cont))) [nl] @ [nl]) @ [nl] @ [nl] @
               ''Preview:'' @ [nl] @ join (take 30 (split_nl cont)) [nl]
           \<and> length (top_comments (split_nl cont)) \<le> 20
           \<and> length (take 10 (filter is_import_line (split_nl cont))) \<le> 10))"
proof (cases "fs_readFile rt file")
  case (Inl e)
  then show ?thesis
    by (simp add: processFile_unreadable)
next
  case (Inr cont)
  from processFile_readable [OF Inr, of rpath repo] obtain ov rest where
    "processFile rt file rpath repo = ov # rest" "ctype ov = File_overview"
    "chunk.startLine ov = 1" "chunk.endLine ov = length (split_nl cont)"
    "chunk.content ov = createFileOverview cont (slashes (path_relative rt rpath file))"
    "list_all (\<lambda>c. in_range (length (split_nl cont)) c \<and> ctype c \<noteq> File_overview) rest"
    by blast
  moreover from this have "list_all (\<lambda>c. ctype c \<noteq> File_overview) rest"
    by (simp add: list_all_iff)
  ultimately show ?thesis
    using Inr length_top_comments [of "split_nl cont"]
    by (simp add: createFileOverview_eq)
qed

theorem file_overview_chunk_witness:
  "map ctype (processFile (example_runtime example_repository) ''/r/src/b.js'' ''/r'' ''repo'') =
     [File_overview, Function]
   \<and> processFile (example_runtime example_repository) ''/r/gone.txt'' ''/r'' ''repo'' = []
   \<and> chunk.content (hd (processFile (example_runtime example_repository) ''/r/lib.py'' ''/r'' ''repo'')) =
       ''File: lib.py'' @ [nl] @ ''Total Lines: 5'' @ [nl, nl] @
       ''Comments:'' @ [nl] @ ''# one'' @ [nl] @ ''# two'' @ [nl] @ [nl] @
       ''Imports/Dependencies:'' @ [nl] @ ''import os'' @ [nl] @ [nl, nl] @
       ''Preview:'' @ [nl] @ ''# one'' @ [nl, nl] @ ''import os'' @ [nl] @ ''# two'' @ [nl] @ ''x = 1''"
proof -
  let ?rt = "example_runtime example_repository"
  have r: "fs_readFile ?rt ''/r/lib.py'' = Inr (''# one'' @ [nl, nl] @ ''import os'' @ [nl] @ ''# two'' @ [nl] @ ''x = 1'')"
    by code_simp
  have g: "fs_readFile ?rt ''/r/gone.txt'' = Inl (Error ''ENOENT'')"
    by code_simp
  have "processFile ?rt ''/r/gone.txt'' ''/r'' ''repo'' = []"
    using file_overview_chunk [of ?rt "''/r/gone.txt''" "''/r''" "''repo''"] unfolding g by simp
  moreover have "map ctype (processFile ?rt ''/r/src/b.js'' ''/r'' ''repo'') = [File_overview, Function]"
    by code_simp
  moreover have "chunk.content (hd (processFile ?rt ''/r/lib.py'' ''/r'' ''repo'')) =
       ''File: lib.py'' @ [nl] @ ''Total Lines: 5'' @ [nl, nl] @
       ''Comments:'' @ [nl] @ ''# one'' @ [nl] @ ''# two'' @ [nl] @ [nl] @
       ''Imports/Dependencies:'' @ [nl] @ ''import os'' @ [nl] @ [nl, nl] @
       ''Preview:'' @ [nl] @ ''# one'' @ [nl, nl] @ ''import os'' @ [nl] @ ''# two'' @ [nl] @ ''x = 1''"
    by code_simp
  ultimately show ?thesis
    by simp
qed

text \<open>
  C7 as it is written fails: in the file below a blank line stands between two comment
  lines. A scan that stops at the first line that is neither a comment nor an import finds
  the first comment only; the overview of the code has both.
\<close>

theorem comment_scan_counterexample:
  "split_nl (''// a'' @ [nl, nl] @ ''// b'') = [''// a'', [], ''// b'']
   \<and> top_comments_spec [''// a'', [], ''// b''] = [''// a'']
   \<and> topComments_loop (take (min 20 (length [''// a'', [], ''// b''])) [''// a'', [], ''// b'']) [] =
       [''// a'', ''// b'']
   \<and> createFileOverview (''// a'' @ [nl, nl] @ ''// b'') ''a.js'' =
       ''File: a.js'' @ [nl] @ ''Total Lines: 3'' @ [nl, nl] @
       ''Comments:'' @ [nl] @ ''// a'' @ [nl] @ ''// b'' @ [nl] @ [nl] @ [nl, nl] @
       ''Preview:'' @ [nl] @ ''// a'' @ [nl, nl] @ ''// b''"
  by code_simp

text \<open>
  C10. Every documentation chunk starts at a header line (1 to 6 characters \<open>#\<close>, then
  white space, then a text without line terminator), the text found after the white space
  is the description of the chunk, and its content is the text of its lines from that
  header on; so a line before the first header line is in no documentation chunk, and a
  file without a header line gives no documentation chunk.
\<close>

theorem documentation_chunks_start_at_headers:
  "(\<forall>c \<in> set (extractDocumentationChunks cont path name repo).
      ctype c = Documentation
      \<and> 1 \<le> chunk.startLine c \<and> chunk.startLine c \<le> chunk.endLine c
      \<and> chunk.endLine c \<le> length (split_nl cont)
      \<and> is_header (split_nl cont ! (chunk.startLine c - 1))
      \<and> chunk.description c = header_title (split_nl cont ! (chunk.startLine c - 1))
      \<and> (\<exists>k w t rest. chunk.description c = Some t
            \<and> split_nl cont ! (chunk.startLine c - 1) = replicate k CHR ''#'' @ w @ t @ rest
            \<and> 1 \<le> k \<and> k \<le> 6 \<and> w \<noteq> [] \<and> list_all is_space w
            \<and> t \<noteq> [] \<and> list_all (\<lambda>x. \<not> is_line_terminator x) t)
      \<and> chunk.content c = lines_text (split_nl cont) (chunk.startLine c) (chunk.endLine c)
      \<and> (\<forall>k. (\<forall>j \<le> k. \<not> is_header (split_nl cont ! j)) \<longrightarrow> k + 1 < chunk.startLine c))
   \<and> ((\<forall>l \<in> set (split_nl cont). \<not> is_header l) \<longrightarrow>
        extractDocumentationChunks cont path name repo = [])
   \<and> (is_header line \<longleftrightarrow>
        (\<exists>k w t rest. line = replicate k CHR ''#'' @ w @ t @ rest \<and> 1 \<le> k \<and> k \<le> 6
           \<and> w \<noteq> [] \<and> list_all is_space w
           \<and> t \<noteq> [] \<and> list_all (\<lambda>x. \<not> is_line_terminator x) t))"
proof -
  let ?lines = "split_nl cont"
  let ?cs = "extractDocumentationChunks cont path name repo"
  have ok: "doc_ok ?lines (length ?lines) c" if "c \<in> set ?cs" for c
    using that extractDocumentationChunks_ok [of cont path name repo] by (simp add: list_all_iff)
  have title: "\<exists>k w t rest. chunk.description c = Some t
      \<and> ?lines ! (chunk.startLine c - 1) = replicate k CHR ''#'' @ w @ t @ rest
      \<and> 1 \<le> k \<and> k \<le> 6 \<and> w \<noteq> [] \<and> list_all is_space w
      \<and> t \<noteq> [] \<and> list_all (\<lambda>x. \<not> is_line_terminator x) t"
    if "c \<in> set ?cs" for c
  proof -
    from ok [OF that] have "is_header (?lines ! (chunk.startLine c - 1))"
      and d: "chunk.description c = header_title (?lines ! (chunk.startLine c - 1))"
      by (simp_all add: doc_ok_def)
    from header_title_form [OF this(1)] show ?thesis
      unfolding d by blast
  qed
  have before: "k + 1 < chunk.startLine c"
    if "c \<in> set ?cs" "\<forall>j \<le> k. \<not> is_header (?lines ! j)" for c k
  proof (rule ccontr)
    assume "\<not> k + 1 < chunk.startLine c"
    then have "chunk.startLine c - 1 \<le> k"
      by simp
    with that(2) have "\<not> is_header (?lines ! (chunk.startLine c - 1))"
      by blast
    with ok [OF that(1)] show False
      by (simp add: doc_ok_def)
  qed
  have none: "?cs = []" if "\<forall>l \<in> set ?lines. \<not> is_header l"
  proof (rule ccontr)
    assume "?cs \<noteq> []"
    then obtain c where c: "c \<in> set ?cs"
      by (meson last_in_set)
    from ok [OF c] have "chunk.startLine c - 1 < length ?lines" "is_header (?lines ! (chunk.startLine c - 1))"
      by (auto simp: doc_ok_def in_range_def)
    with that show False
      by (meson nth_mem)
  qed
  have chunks: "\<forall>c \<in> set ?cs.
      ctype c = Documentation
      \<and> 1 \<le> chunk.startLine c \<and> chunk.startLine c \<le> chunk.endLine c
      \<and> chunk.endLine c \<le> length ?lines
      \<and> is_header (?lines ! (chunk.startLine c - 1))
      \<and> chunk.description c = header_title (?lines ! (chunk.startLine c - 1))
      \<and> (\<exists>k w t rest. chunk.description c = Some t
            \<and> ?lines ! (chunk.startLine c - 1) = replicate k CHR ''#'' @ w @ t @ rest
            \<and> 1 \<le> k \<and> k \<le> 6 \<and> w \<noteq> [] \<and> list_all is_space w
            \<and> t \<noteq> [] \<and> list_all (\<lambda>x. \<not> is_line_terminator x) t)
      \<and> chunk.content c = lines_text ?lines (chunk.startLine c) (chunk.endLine c)
      \<and> (\<forall>k. (\<forall>j \<le> k. \<not> is_header (?lines ! j)) \<longrightarrow> k + 1 < chunk.startLine c)"
  proof
    fix c
    assume c: "c \<in> set ?cs"
    from ok [OF c] title [OF c] before [OF c]
    show "ctype c = Documentation
      \<and> 1 \<le> chunk.startLine c \<and> chunk.startLine c \<le> chunk.endLine c
      \<and> chunk.endLine c \<le> length ?lines
      \<and> is_header (?lines ! (chunk.startLine c - 1))
      \<and> chunk.description c = header_title (?lines ! (chunk.startLine c - 1))
      \<and> (\<exists>k w t rest. chunk.description c = Some t
            \<and> ?lines ! (chunk.startLine c - 1) = replicate k CHR ''#'' @ w @ t @ rest
            \<and> 1 \<le> k \<and> k \<le> 6 \<and> w \<noteq> [] \<and> list_all is_space w
            \<and> t \<noteq> [] \<and> list_all (\<lambda>x. \<not> is_line_terminator x) t)
      \<and> chunk.content c = lines_text ?lines (chunk.startLine c) (chunk.endLine c)
      \<and> (\<forall>k. (\<forall>j \<le> k. \<not> is_header (?lines ! j)) \<longrightarrow> k + 1 < chunk.startLine c)"
      unfolding doc_ok_def in_range_def by blast
  qed
  from chunks none is_header_iff [of line] show ?thesis
    by (intro conjI impI) assumption+
qed

theorem documentation_chunks_start_at_headers_witness:
  "map (\<lambda>c. (chunk.startLine c, chunk.endLine c, chunk.description c, chunk.content c))
     (extractDocumentationChunks (''intro'' @ [nl] @ ''# Title'' @ [nl] @ ''text'') ''README.md'' ''README.md'' ''repo'')
     = [(2, 3, Some ''Title'', ''# Title'' @ [nl] @ ''text'' @ [nl])]
   \<and> extractDocumentationChunks (''no header'' @ [nl] @ ''#here'') ''README.md'' ''README.md'' ''repo'' = []"
proof -
  have "\<forall>l \<in> set (split_nl (''no header'' @ [nl] @ ''#here'')). \<not> is_header l"
    by code_simp
  then have "extractDocumentationChunks (''no header'' @ [nl] @ ''#here'') ''README.md'' ''README.md'' ''repo'' = []"
    using documentation_chunks_start_at_headers
      [of "''no header'' @ [nl] @ ''#here''" "''README.md''" "''README.md''" "''repo''"]
    by blast
  moreover have "map (\<lambda>c. (chunk.startLine c, chunk.endLine c, chunk.description c, chunk.content c))
     (extractDocumentationChunks (''intro'' @ [nl] @ ''# Title'' @ [nl] @ ''text'') ''README.md'' ''README.md'' ''repo'')
     = [(2, 3, Some ''Title'', ''# Title'' @ [nl] @ ''text'' @ [nl])]"
    by code_simp
  ultimately show ?thesis
    by simp
qed

section \<open>Ranking and context assembly\<close>

lemma number_le_iff: "number_le x y \<longleftrightarrow> \<not> number_less y x"
  by (cases x; cases y) (auto simp: number_le_def)

lemma descending_key_le: "descending_key x \<le> descending_key y \<longleftrightarrow> number_le y x"
  by (cases x; cases y) (auto simp: number_le_def less_eq_prod_def)

lemma relevanceScore_boosts: "relevanceScore q c = (times_1_5 ^^ boosts q c) (score c)"
  by (simp add: relevanceScore_def boosts_def Let_def)

lemma relevanceScore_setup:
  "setup_query q \<Longrightarrow> setup_chunk c \<Longrightarrow>
   relevanceScore q c = (times_1_5 ^^ other_boosts q c) (times_1_5 (score c))"
  by (simp add: relevanceScore_def other_boosts_def Let_def)

lemma adjustedScore_rank_chunk: "adjustedScore (rank_chunk q c) = relevanceScore q c"
  by (simp add: rank_chunk_def candidate.defs ranked.defs)

lemma truncate_rank_chunk: "candidate.truncate (rank_chunk q c) = c"
  by (simp add: rank_chunk_def candidate.defs ranked.defs source_doc.defs)

lemma set_filterAndRankResults:
  "set (filterAndRankResults rs query) =
     {r \<in> rank_chunk (toLowerCase query) ` set rs. number_less literal_0_3 (adjustedScore r)}"
  by (auto simp: filterAndRankResults_def Let_def)

lemma sorted_filterAndRankResults:
  "sorted_wrt (\<lambda>a b. number_le (adjustedScore b) (adjustedScore a)) (filterAndRankResults rs query)"
proof -
  let ?xs = "sort_key (\<lambda>chunk. descending_key (adjustedScore chunk))
               (map (rank_chunk (toLowerCase query)) rs)"
  have "sorted (map (\<lambda>chunk. descending_key (adjustedScore chunk)) ?xs)"
    by (rule sorted_sort_key)
  then have "sorted_wrt (\<lambda>a b. number_le (adjustedScore b) (adjustedScore a)) ?xs"
    by (simp add: sorted_wrt_map descending_key_le)
  then show ?thesis
    unfolding filterAndRankResults_def Let_def by (rule sorted_wrt_filter)
qed

lemma includes_str_map:
  "includes_str s t \<Longrightarrow> includes_str (map f s) (map f t)"
proof (induction s)
  case Nil
  then show ?case by simp
next
  case (Cons c s)
  have "startsWith (c # s) t \<Longrightarrow> startsWith (map f (c # s)) (map f t)"
    unfolding startsWith_def by (metis length_map take_map)
  with Cons show ?case by auto
qed

lemma setup_query_lower: "includes_str query ''setup'' \<Longrightarrow> setup_query (toLowerCase query)"
proof -
  assume "includes_str query ''setup''"
  then have "includes_str (map lower_char query) (map lower_char ''setup'')"
    by (rule includes_str_map)
  moreover have "map lower_char ''setup'' = ''setup''"
    by code_simp
  ultimately show ?thesis
    by (simp add: setup_query_def toLowerCase_def)
qed

lemma add_chunk_eq: "add_chunk ctx (i, c) = ctx @ chunk_heading i c @ content_block c"
  by (simp add: add_chunk_def chunk_heading_def Let_def truthy_opt_def truthy_def
      split: option.splits)

lemma foldl_add_chunk:
  "foldl add_chunk ctx ics =
     ctx @ concat (map (\<lambda>(i, c). chunk_heading i c @ content_block c) ics)"
  by (induction ics arbitrary: ctx) (auto simp: add_chunk_eq)

text \<open>
  C3, as amended. In filterAndRankResults every candidate gets as \<open>adjustedScore\<close> its raw
  score multiplied by 1.5 once for each keyword group that the query and the candidate
  trigger, each product being the product of doubles \<open>x * 1.5\<close> (the exact product rounded
  to the nearest double), and the result holds such candidates only. For a query that
  contains \<open>setup\<close> and a candidate whose file name is \<open>package.json\<close> the setup boost
  applies first: the adjusted score is the raw score times 1.5, multiplied by 1.5 again
  for each of the three other groups that triggers, and so the raw score times 1.5 when
  none of them does.
\<close>

theorem adjustedScore_boosts:
  "adjustedScore (rank_chunk (toLowerCase query) c) =
     (times_1_5 ^^ boosts (toLowerCase query) c) (score c)
   \<and> (\<forall>r \<in> set (filterAndRankResults rs query).
        \<exists>k \<in> set rs. r = rank_chunk (toLowerCase query) k)
   \<and> (includes_str query ''setup'' \<and> source_doc.fileName c = ''package.json'' \<longrightarrow>
        adjustedScore (rank_chunk (toLowerCase query) c) =
          (times_1_5 ^^ other_boosts (toLowerCase query) c) (times_1_5 (score c))
        \<and> (\<not> (api_query (toLowerCase query) \<and> api_chunk c) \<and>
            \<not> (database_query (toLowerCase query) \<and> database_chunk c) \<and>
            \<not> (auth_query (toLowerCase query) \<and> auth_chunk c) \<longrightarrow>
            adjustedScore (rank_chunk (toLowerCase query) c) = times_1_5 (score c)))"
proof -
  let ?q = "toLowerCase query"
  have a: "adjustedScore (rank_chunk ?q c) = (times_1_5 ^^ boosts ?q c) (score c)"
    by (simp add: adjustedScore_rank_chunk relevanceScore_boosts)
  have b: "\<forall>r \<in> set (filterAndRankResults rs query). \<exists>k \<in> set rs. r = rank_chunk ?q k"
    by (auto simp: set_filterAndRankResults)
  have c: "adjustedScore (rank_chunk ?q c) = (times_1_5 ^^ other_boosts ?q c) (times_1_5 (score c))"
    if "includes_str query ''setup''" "source_doc.fileName c = ''package.json''"
    using that setup_query_lower [of query] relevanceScore_setup [of ?q c]
    by (simp add: adjustedScore_rank_chunk setup_chunk_def)
  have d: "other_boosts ?q c = 0"
    if "\<not> (api_query ?q \<and> api_chunk c)" "\<not> (database_query ?q \<and> database_chunk c)"
      "\<not> (auth_query ?q \<and> auth_chunk c)"
    using that by (simp add: other_boosts_def)
  from c d have f: "includes_str query ''setup'' \<and> source_doc.fileName c = ''package.json'' \<longrightarrow>
        adjustedScore (rank_chunk ?q c) = (times_1_5 ^^ other_boosts ?q c) (times_1_5 (score c))
        \<and> (\<not> (api_query ?q \<and> api_chunk c) \<and> \<not> (database_query ?q \<and> database_chunk c) \<and>
            \<not> (auth_query ?q \<and> auth_chunk c) \<longrightarrow>
            adjustedScore (rank_chunk ?q c) = times_1_5 (score c))"
    by (metis funpow_0)
  from a b f show ?thesis
    by (intro conjI)
qed

theorem adjustedScore_boosts_witness:
  "includes_str ''how to setup'' ''setup''
   \<and> adjustedScore (rank_chunk ''how to setup''
        (example_candidate ''package.json'' ''package.json'' ''configuration'' ''{}'' (Finite 2)))
       = Finite 3
   \<and> map adjustedScore (filterAndRankResults
        [example_candidate ''package.json'' ''package.json'' ''configuration'' ''{}'' (Finite 2)]
        ''how to setup'') = [Finite 3]
   \<and> js_0_1 = Finite (3602879701896397 / 2 ^ 55)
   \<and> adjustedScore (rank_chunk ''how to setup''
        (example_candidate ''package.json'' ''package.json'' ''configuration'' ''{}'' js_0_1))
       = Finite (5404319552844596 / 2 ^ 55)"
proof -
  let ?c = "example_candidate ''package.json'' ''package.json'' ''configuration'' ''{}'' (Finite 2)"
  let ?d = "example_candidate ''package.json'' ''package.json'' ''configuration'' ''{}'' js_0_1"
  have q: "toLowerCase ''how to setup'' = ''how to setup''"
    by code_simp
  have h: "includes_str ''how to setup'' ''setup'' \<and> source_doc.fileName ?c = ''package.json''"
    by code_simp
  have h': "includes_str ''how to setup'' ''setup'' \<and> source_doc.fileName ?d = ''package.json''"
    by code_simp
  have n: "\<not> (api_query ''how to setup'' \<and> api_chunk ?c) \<and>
           \<not> (database_query ''how to setup'' \<and> database_chunk ?c) \<and>
           \<not> (auth_query ''how to setup'' \<and> auth_chunk ?c)"
    by code_simp
  have n': "\<not> (api_query ''how to setup'' \<and> api_chunk ?d) \<and>
           \<not> (database_query ''how to setup'' \<and> database_chunk ?d) \<and>
           \<not> (auth_query ''how to setup'' \<and> auth_chunk ?d)"
    by code_simp
  have s: "times_1_5 (score ?c) = Finite 3"
    by code_simp
  have s': "times_1_5 (score ?d) = Finite (5404319552844596 / 2 ^ 55)"
    by code_simp
  have j: "js_0_1 = Finite (3602879701896397 / 2 ^ 55)"
    by code_simp
  have "adjustedScore (rank_chunk ''how to setup'' ?c) = times_1_5 (score ?c)"
    using adjustedScore_boosts [of "''how to setup''" ?c "[?c]"] h n unfolding q by blast
  then have 1: "adjustedScore (rank_chunk ''how to setup'' ?c) = Finite 3"
    unfolding s .
  have "adjustedScore (rank_chunk ''how to setup'' ?d) = times_1_5 (score ?d)"
    using adjustedScore_boosts [of "''how to setup''" ?d "[?d]"] h' n' unfolding q by blast
  then have 2: "adjustedScore (rank_chunk ''how to setup'' ?d) = Finite (5404319552844596 / 2 ^ 55)"
    unfolding s' .
  have 3: "map adjustedScore (filterAndRankResults [?c] ''how to setup'') = [Finite 3]"
    by code_simp
  from h 1 3 j 2 show ?thesis
    by (intro conjI) (rule conjunct1, assumption+)
qed

text \<open>
  C3 as it is written fails. The query \<open>setup auth\<close> contains \<open>setup\<close>, the candidate is a
  \<open>package.json\<close> under a directory \<open>auth\<close>, its raw score is 1, and its adjusted score is
  2.25, not 1.5. And two boosts do not always give the raw score times 2.25: for the raw
  score 0.2 they give 0.45000000000000007, where the product of 0.2 and 2.25 is 0.45.
\<close>

theorem setup_boost_counterexample:
  "includes_str ''setup auth'' ''setup''
   \<and> source_doc.fileName
        (example_candidate ''auth/package.json'' ''package.json'' ''configuration'' ''{}'' (Finite 1))
       = ''package.json''
   \<and> map adjustedScore (filterAndRankResults
        [example_candidate ''auth/package.json'' ''package.json'' ''configuration'' ''{}'' (Finite 1)]
        ''setup auth'') = [Finite (9 / 4)]
   \<and> times_1_5 (score
        (example_candidate ''auth/package.json'' ''package.json'' ''configuration'' ''{}'' (Finite 1)))
       = Finite (3 / 2)
   \<and> Finite (9 / 4) \<noteq> Finite (3 / 2)
   \<and> js_0_2 = Finite (3602879701896397 / 2 ^ 54)
   \<and> map adjustedScore (filterAndRankResults
        [example_candidate ''auth/package.json'' ''package.json'' ''configuration'' ''{}'' js_0_2]
        ''setup auth'') = [Finite (4053239664633447 / 2 ^ 53)]
   \<and> round_double (3602879701896397 / 2 ^ 54 * (9 / 4)) = Finite (8106479329266893 / 2 ^ 54)
   \<and> Finite (4053239664633447 / 2 ^ 53) \<noteq> Finite (8106479329266893 / 2 ^ 54)"
  by code_simp

text \<open>
  C4. A candidate whose adjusted score is 0.3 or less (\<open>0.3\<close> is the double of that literal)
  is not in the ranked result, every candidate of the result is above 0.3; when no
  candidate is above 0.3 the ranked result and the result of searchRelevantContext are
  empty, and buildContext of the empty sequence is the fixed sentence.
\<close>

theorem relevance_floor:
  "(\<forall>c \<in> set rs. number_le (relevanceScore (toLowerCase query) c) literal_0_3 \<longrightarrow>
       rank_chunk (toLowerCase query) c \<notin> set (filterAndRankResults rs query))
   \<and> (\<forall>r \<in> set (filterAndRankResults rs query). number_less literal_0_3 (adjustedScore r))
   \<and> ((\<forall>c \<in> set rs. number_le (relevanceScore (toLowerCase query) c) literal_0_3) \<longrightarrow>
        filterAndRankResults rs query = [] \<and>
        (hybridSearch client query emb 15 (if truthy_opt rf then rf else None) = Inr rs \<longrightarrow>
           searchRelevantContext client query emb rf = Inr []))
   \<and> buildContext [] = ''No specific codebase context found for this query.''"
proof -
  let ?q = "toLowerCase query"
  have a: "\<forall>r \<in> set (filterAndRankResults rs query). number_less literal_0_3 (adjustedScore r)"
    by (simp add: set_filterAndRankResults)
  have b: "rank_chunk ?q c \<notin> set (filterAndRankResults rs query)"
    if "number_le (relevanceScore ?q c) literal_0_3" for c
    using that a adjustedScore_rank_chunk [of ?q c] by (auto simp: number_le_iff)
  have c: "filterAndRankResults rs query = []"
    if "\<forall>c \<in> set rs. number_le (relevanceScore ?q c) literal_0_3"
  proof -
    have "set (filterAndRankResults rs query) = {}"
      using that by (auto simp: set_filterAndRankResults adjustedScore_rank_chunk number_le_iff)
    then show ?thesis by simp
  qed
  have d: "searchRelevantContext client query emb rf = Inr []"
    if "filterAndRankResults rs query = []"
       "hybridSearch client query emb 15 (if truthy_opt rf then rf else None) = Inr rs"
    using that by (simp add: searchRelevantContext_def Let_def)
  have e: "buildContext [] = ''No specific codebase context found for this query.''"
    by (simp add: buildContext_def no_context_def)
  show ?thesis
    using a b c d e by blast
qed

theorem relevance_floor_witness:
  "literal_0_3 = Finite (5404319552844595 / 2 ^ 54)
   \<and> is_double (7205759403792793 / 2 ^ 55)
   \<and> relevanceScore (toLowerCase ''setup'')
        (example_candidate ''package.json'' ''package.json'' ''configuration'' ''{}'' below_0_2)
       = literal_0_3
   \<and> filterAndRankResults
        [example_candidate ''package.json'' ''package.json'' ''configuration'' ''{}'' below_0_2,
         example_candidate ''src/a.js'' ''a.js'' ''function'' ''x'' literal_0_3] ''setup'' = []
   \<and> searchRelevantContext
        (\<lambda>b. Inr [example_hit ''package.json'' ''package.json'' ''configuration'' ''{}'' below_0_2,
                  example_hit ''src/a.js'' ''a.js'' ''function'' ''x'' literal_0_3])
        ''setup'' [] None = Inr []
   \<and> buildContext [] = ''No specific codebase context found for this query.''
   \<and> js_0_2 = Finite (3602879701896397 / 2 ^ 54)
   \<and> map adjustedScore (filterAndRankResults
        [example_candidate ''package.json'' ''package.json'' ''configuration'' ''{}'' js_0_2] ''setup'')
       = [Finite (5404319552844596 / 2 ^ 54)]"
proof -
  let ?c = "example_candidate ''package.json'' ''package.json'' ''configuration'' ''{}'' below_0_2"
  let ?d = "example_candidate ''src/a.js'' ''a.js'' ''function'' ''x'' literal_0_3"
  let ?client = "\<lambda>b :: search_body.
     (Inr [example_hit ''package.json'' ''package.json'' ''configuration'' ''{}'' below_0_2,
           example_hit ''src/a.js'' ''a.js'' ''function'' ''x'' literal_0_3] :: error + hit list)"
  have l: "literal_0_3 = Finite (5404319552844595 / 2 ^ 54)"
    by code_simp
  have i: "is_double (7205759403792793 / 2 ^ 55)"
    by code_simp
  have s: "relevanceScore (toLowerCase ''setup'') ?c = literal_0_3"
    by code_simp
  have t: "relevanceScore (toLowerCase ''setup'') ?d = literal_0_3"
    by code_simp
  have h: "\<forall>c \<in> set [?c, ?d]. number_le (relevanceScore (toLowerCase ''setup'') c) literal_0_3"
    using s t by (simp add: number_le_def)
  have g: "hybridSearch ?client ''setup'' [] 15 (if truthy_opt None then None else None) = Inr [?c, ?d]"
    by (simp add: hybridSearch_def example_hit_def example_candidate_def
        source_doc.defs candidate.defs)
  have r: "filterAndRankResults [?c, ?d] ''setup'' = [] \<and>
      searchRelevantContext ?client ''setup'' [] None = Inr [] \<and>
      buildContext [] = ''No specific codebase context found for this query.''"
    using relevance_floor [of "[?c, ?d]" "''setup''" ?client "[]" None] h g by blast
  have j: "js_0_2 = Finite (3602879701896397 / 2 ^ 54)"
    by code_simp
  have k: "map adjustedScore (filterAndRankResults
        [example_candidate ''package.json'' ''package.json'' ''configuration'' ''{}'' js_0_2] ''setup'')
       = [Finite (5404319552844596 / 2 ^ 54)]"
    by code_simp
  from l i s r j k show ?thesis
    by blast
qed

text \<open>
  C5. When the hybrid search, asked for 15 candidates, answers, searchRelevantContext
  returns at most 8 chunks, in non-increasing order of adjusted score, each of them one of
  the candidates of the search with its adjusted score; when the search throws, so does
  searchRelevantContext.
\<close>

theorem searchRelevantContext_top8:
  "(case hybridSearch client query emb 15 (if truthy_opt rf then rf else None) of
      Inl e \<Rightarrow> searchRelevantContext client query emb rf = Inl e
    | Inr searchResults \<Rightarrow>
        (\<exists>out. searchRelevantContext client query emb rf = Inr out
           \<and> length out \<le> 8
           \<and> sorted_wrt (\<lambda>a b. number_le (adjustedScore b) (adjustedScore a)) out
           \<and> (\<forall>r \<in> set out. candidate.truncate r \<in> set searchResults \<and>
                 r = rank_chunk (toLowerCase query) (candidate.truncate r))))"
proof (cases "hybridSearch client query emb 15 (if truthy_opt rf then rf else None)")
  case (Inl e)
  then show ?thesis
    by (simp add: searchRelevantContext_def Let_def)
next
  case (Inr rs)
  let ?out = "take 8 (filterAndRankResults rs query)"
  have "searchRelevantContext client query emb rf = Inr ?out"
    using Inr by (simp add: searchRelevantContext_def Let_def)
  moreover have "length ?out \<le> 8"
    by simp
  moreover have "sorted_wrt (\<lambda>a b. number_le (adjustedScore b) (adjustedScore a)) ?out"
    using sorted_filterAndRankResults [of rs query] by (rule sorted_wrt_take)
  moreover have "candidate.truncate r \<in> set rs \<and>
      r = rank_chunk (toLowerCase query) (candidate.truncate r)" if "r \<in> set ?out" for r
  proof -
    from that have "r \<in> set (filterAndRankResults rs query)"
      by (rule in_set_takeD)
    then obtain k where "k \<in> set rs" "r = rank_chunk (toLowerCase query) k"
      by (auto simp: set_filterAndRankResults)
    then show ?thesis
      by (simp add: truncate_rank_chunk)
  qed
  ultimately show ?thesis
    using Inr by auto
qed

theorem searchRelevantContext_top8_witness:
  "(\<exists>out. searchRelevantContext
        (\<lambda>b. Inr (map (example_hit ''routes/a.js'' ''a.js'' ''route'' ''x'')
                 (map Finite [1 / 8, 1 / 2, 2, 1, 5 / 8, 7 / 8, 3 / 4, 3 / 8, 1 / 4, 3, 1 / 16])))
        ''api'' [] None = Inr out
      \<and> length out \<le> 8
      \<and> sorted_wrt (\<lambda>a b. number_le (adjustedScore b) (adjustedScore a)) out
      \<and> (\<forall>r \<in> set out.
            candidate.truncate r \<in> set (map (example_candidate ''routes/a.js'' ''a.js'' ''route'' ''x'')
                 (map Finite [1 / 8, 1 / 2, 2, 1, 5 / 8, 7 / 8, 3 / 4, 3 / 8, 1 / 4, 3, 1 / 16])) \<and>
            r = rank_chunk (toLowerCase ''api'') (candidate.truncate r)))
   \<and> map adjustedScore
        (projr (searchRelevantContext
           (\<lambda>b. Inr (map (example_hit ''routes/a.js'' ''a.js'' ''route'' ''x'')
                    (map Finite [1 / 8, 1 / 2, 2, 1, 5 / 8, 7 / 8, 3 / 4, 3 / 8, 1 / 4, 3, 1 / 16])))
           ''api'' [] None)) =
       map Finite [9 / 2, 3, 3 / 2, 21 / 16, 9 / 8, 15 / 16, 3 / 4, 9 / 16]"
proof -
  let ?scores = "map Finite [1 / 8, 1 / 2, 2, 1, 5 / 8, 7 / 8, 3 / 4, 3 / 8, 1 / 4, 3, 1 / 16]"
  let ?client = "\<lambda>b :: search_body.
     (Inr (map (example_hit ''routes/a.js'' ''a.js'' ''route'' ''x'') ?scores) :: error + hit list)"
  have g: "hybridSearch ?client ''api'' [] 15 (if truthy_opt None then None else None) =
      Inr (map (example_candidate ''routes/a.js'' ''a.js'' ''route'' ''x'') ?scores)"
    by (simp add: hybridSearch_def example_hit_def example_candidate_def
        source_doc.defs candidate.defs)
  have e: "\<exists>out. searchRelevantContext ?client ''api'' [] None = Inr out
      \<and> length out \<le> 8
      \<and> sorted_wrt (\<lambda>a b. number_le (adjustedScore b) (adjustedScore a)) out
      \<and> (\<forall>r \<in> set out.
            candidate.truncate r \<in> set (map (example_candidate ''routes/a.js'' ''a.js'' ''route'' ''x'')
                 ?scores) \<and>
            r = rank_chunk (toLowerCase ''api'') (candidate.truncate r))"
    using searchRelevantContext_top8 [of ?client "''api''" "[]" None]
    unfolding g sum.case .
  have v: "map adjustedScore (projr (searchRelevantContext ?client ''api'' [] None)) =
      map Finite [9 / 2, 3, 3 / 2, 21 / 16, 9 / 8, 15 / 16, 3 / 4, 9 / 16]"
    by code_simp
  show ?thesis
    using e v by (rule conjI)
qed

text \<open>
  C6. buildContext writes, for each chunk in order, its heading and then its content
  between two fences; the content written is the first 1000 characters, followed by the
  marker \<open>...\<close> exactly when the content is longer than 1000 characters: 1000 characters
  and the marker for a content of 1001, the whole content and no marker for a content of
  1000.
\<close>

theorem buildContext_truncation:
  "buildContext (c # cs) =
     ''## Relevant Codebase Information:'' @ [nl] @ [nl] @
     concat (map (\<lambda>(i, k). chunk_heading i k @
               ''**Content:**'' @ [nl] @ fence @ [nl] @ rendered_content k @ [nl] @ fence @ [nl] @ [nl])
             (enumerate 0 (c # cs)))
   \<and> (if length (source_doc.content chunk) > 1000
      then rendered_content chunk = take 1000 (source_doc.content chunk) @ ''...'' \<and>
           length (take 1000 (source_doc.content chunk)) = 1000
      else rendered_content chunk = source_doc.content chunk)
   \<and> (length (source_doc.content chunk) = 1001 \<longrightarrow> length (rendered_content chunk) = 1003)
   \<and> (length (source_doc.content chunk) = 1000 \<longrightarrow>
        rendered_content chunk = source_doc.content chunk)"
proof -
  have "buildContext (c # cs) =
     (''## Relevant Codebase Information:'' @ [nl] @ [nl]) @
     concat (map (\<lambda>(i, k). chunk_heading i k @ content_block k) (enumerate 0 (c # cs)))"
    unfolding buildContext_def foldl_add_chunk by simp
  moreover have "(\<lambda>(i, k). chunk_heading i k @ content_block k) =
     (\<lambda>(i, k). chunk_heading i k @
        ''**Content:**'' @ [nl] @ fence @ [nl] @ rendered_content k @ [nl] @ fence @ [nl] @ [nl])"
    by (simp add: content_block_def)
  moreover have "if length (source_doc.content chunk) > 1000
      then rendered_content chunk = take 1000 (source_doc.content chunk) @ ''...'' \<and>
           length (take 1000 (source_doc.content chunk)) = 1000
      else rendered_content chunk = source_doc.content chunk"
    by (simp add: rendered_content_def)
  moreover have "length (source_doc.content chunk) = 1001 \<longrightarrow> length (rendered_content chunk) = 1003"
    by (simp add: rendered_content_def)
  moreover have "length (source_doc.content chunk) = 1000 \<longrightarrow>
      rendered_content chunk = source_doc.content chunk"
    by (simp add: rendered_content_def)
  ultimately show ?thesis
    by simp
qed

theorem buildContext_truncation_witness:
  "rendered_content (rank_chunk [] (example_candidate ''a'' ''a'' ''function'' (replicate 1001 CHR ''x'') (Finite 1)))
     = replicate 1000 CHR ''x'' @ ''...''
   \<and> rendered_content (rank_chunk [] (example_candidate ''a'' ''a'' ''function'' (replicate 1000 CHR ''x'') (Finite 1)))
     = replicate 1000 CHR ''x''
   \<and> buildContext [rank_chunk [] (example_candidate ''src/a.js'' ''a.js'' ''function'' ''f()'' (Finite 1))]
     = ''## Relevant Codebase Information:'' @ [nl, nl] @ ''### 1. a.js (function)'' @ [nl] @
       ''**File Path:** src/a.js'' @ [nl] @ ''**Content:**'' @ [nl] @ fence @ [nl] @ ''f()'' @ [nl] @
       fence @ [nl, nl]"
proof -
  let ?long = "rank_chunk [] (example_candidate ''a'' ''a'' ''function'' (replicate 1001 CHR ''x'') (Finite 1))"
  let ?full = "rank_chunk [] (example_candidate ''a'' ''a'' ''function'' (replicate 1000 CHR ''x'') (Finite 1))"
  let ?one = "rank_chunk [] (example_candidate ''src/a.js'' ''a.js'' ''function'' ''f()'' (Finite 1))"
  have l: "source_doc.content ?long = replicate 1001 CHR ''x''"
    and f: "source_doc.content ?full = replicate 1000 CHR ''x''"
    by (simp_all add: rank_chunk_def example_candidate_def candidate.defs ranked.defs)
  have "rendered_content ?long = replicate 1000 CHR ''x'' @ ''...''"
    using buildContext_truncation [of ?one "[]" ?long] unfolding l by simp
  moreover have "rendered_content ?full = replicate 1000 CHR ''x''"
    using buildContext_truncation [of ?one "[]" ?full] unfolding f by simp
  moreover have "buildContext [?one]
     = ''## Relevant Codebase Information:'' @ [nl, nl] @ ''### 1. a.js (function)'' @ [nl] @
       ''**File Path:** src/a.js'' @ [nl] @ ''**Content:**'' @ [nl] @ fence @ [nl] @ ''f()'' @ [nl] @
       fence @ [nl, nl]"
    by code_simp
  ultimately show ?thesis
    by simp
qed

text \<open>
  C9. extractConfigChunks returns one configuration chunk, whose content is
  \<open>JSON.stringify(config, null, 2)\<close> of the parsed content, when \<open>JSON.parse\<close> accepts the
  content, and the empty list when \<open>JSON.parse\<close> throws; it returns a list in both cases,
  the error stays inside.
\<close>

theorem extractConfigChunks_json:
  "extractConfigChunks rt cont path name repo =
     (case json_parse rt cont of
        Inl e \<Rightarrow> []
      | Inr config \<Rightarrow>
          [\<lparr>ctype = Configuration, content = json_stringify rt config, filePath = path,
            fileName = name, fileType = ''json'', repository = repo, startLine = 1,
            endLine = length (split_nl cont),
            description = Some (''Configuration file: '' @ name),
            functionName = None, className = None\<rparr>])"
  by (simp add: extractConfigChunks_def extractConfigChunks_try_def split: sum.splits)

theorem extractConfigChunks_json_witness:
  "map chunk.content (extractConfigChunks (example_runtime []) ''{}'' ''package.json'' ''package.json'' ''repo'')
     = [''{}'']
   \<and> extractConfigChunks (example_runtime []) ''{'' ''package.json'' ''package.json'' ''repo'' = []"
  using extractConfigChunks_json [of "example_runtime []" "''{}''" "''package.json''" "''package.json''" "''repo''"]
    extractConfigChunks_json [of "example_runtime []" "''{''" "''package.json''" "''package.json''" "''repo''"]
  by (simp add: example_runtime_def)

section \<open>The ingestion job\<close>

lemma process_chunk_eq: "process_chunk env kc n = (if item_ok env kc then n + 1 else n)"
  by (simp add: process_chunk_def item_ok_def split: sum.splits)

lemma fold_process_chunk:
  "fold (process_chunk env) kcs n = n + length (filter (item_ok env) kcs)"
  by (induction kcs arbitrary: n) (simp_all add: process_chunk_eq)

lemma process_batch_eq:
  "process_batch env i batch n = n + length (filter (item_ok env) (enumerate i batch))"
  by (simp add: process_batch_def fold_process_chunk)

lemma enumerate_batches:
  "enumerate i (drop i cs) =
     enumerate i (take b (drop i cs)) @ enumerate (i + b) (drop (i + b) cs)"
proof -
  have "drop i cs = take b (drop i cs) @ drop (i + b) cs"
    by (metis append_take_drop_id drop_drop add.commute)
  then have "enumerate i (drop i cs) =
      enumerate i (take b (drop i cs)) @
      enumerate (i + length (take b (drop i cs))) (drop (i + b) cs)"
    by (metis enumerate_append_eq)
  moreover have "enumerate (i + length (take b (drop i cs))) (drop (i + b) cs) =
      enumerate (i + b) (drop (i + b) cs)"
    by (cases "b \<le> length cs - i") (simp_all add: min_def)
  ultimately show ?thesis
    by simp
qed

lemma index_loop_count:
  "processedCount (index_loop env ingestionId cs i st) =
     processedCount st + length (filter (item_ok env) (enumerate i (drop i cs)))"
proof (induction env ingestionId cs i st rule: index_loop.induct)
  case (1 env ingestionId cs i st)
  show ?case
  proof (cases "i < length cs")
    case True
    have "processedCount (index_loop env ingestionId cs i st) =
        process_batch env i (take 10 (drop i cs)) (processedCount st) +
        length (filter (item_ok env) (enumerate (i + 10) (drop (i + 10) cs)))"
      using True "1.IH" [OF True refl refl refl]
      by (subst index_loop.simps) (simp add: Let_def updateIngestionStatus_def)
    then show ?thesis
      by (subst enumerate_batches [of i cs 10]) (simp add: process_batch_eq)
  next
    case False
    then show ?thesis
      by (subst index_loop.simps) simp
  qed
qed

lemma index_loop_log:
  "\<exists>extra. status_log (index_loop env ingestionId cs i st) = status_log st @ extra \<and>
     list_all (\<lambda>e. fst (snd e) = ''processing'') extra"
proof (induction env ingestionId cs i st rule: index_loop.induct)
  case (1 env ingestionId cs i st)
  show ?case
  proof (cases "i < length cs")
    case True
    let ?n = "process_batch env i (take 10 (drop i cs)) (processedCount st)"
    let ?m = "''Indexing chunks... '' @ show_nat (round_percent env ?n (length cs)) @ ''%''"
    let ?st = "updateIngestionStatus ingestionId ''processing'' ?m (st\<lparr>processedCount := ?n\<rparr>)"
    have u: "index_loop env ingestionId cs i st = index_loop env ingestionId cs (i + 10) ?st"
      using True by (subst index_loop.simps) (simp add: Let_def)
    from "1.IH" [OF True refl refl refl] obtain extra where
      e: "status_log (index_loop env ingestionId cs (i + 10) ?st) = status_log ?st @ extra"
      and p: "list_all (\<lambda>e. fst (snd e) = ''processing'') extra"
      by blast
    have "status_log (index_loop env ingestionId cs i st) =
        status_log st @ ((ingestionId, ''processing'', ?m) # extra)"
      unfolding u e by (simp add: updateIngestionStatus_def)
    moreover have "list_all (\<lambda>e. fst (snd e) = ''processing'') ((ingestionId, ''processing'', ?m) # extra)"
      using p by simp
    ultimately show ?thesis
      by blast
  next
    case False
    then show ?thesis
      by (subst index_loop.simps) simp
  qed
qed

lemma index_loop_saved: "saved_metadata (index_loop env ingestionId cs i st) = saved_metadata st"
proof (induction env ingestionId cs i st rule: index_loop.induct)
  case (1 env ingestionId cs i st)
  show ?case
  proof (cases "i < length cs")
    case True
    with "1.IH" [OF True refl refl refl] show ?thesis
      by (subst index_loop.simps) (simp add: Let_def updateIngestionStatus_def)
  next
    case False
    then show ?thesis
      by (subst index_loop.simps) simp
  qed
qed

lemma script_loop_count:
  "script_loop env cs i n = n + length (filter (item_ok env) (enumerate i (drop i cs)))"
proof (induction env cs i n rule: script_loop.induct)
  case (1 env cs i n)
  show ?case
  proof (cases "i < length cs")
    case True
    have "script_loop env cs i n =
        process_batch env i (take 5 (drop i cs)) n +
        length (filter (item_ok env) (enumerate (i + 5) (drop (i + 5) cs)))"
      using True "1.IH" [OF True] by (subst script_loop.simps) simp
    then show ?thesis
      by (subst enumerate_batches [of i cs 5]) (simp add: process_batch_eq)
  next
    case False
    then show ?thesis
      by (subst script_loop.simps) simp
  qed
qed

text \<open>
  C8. When the clone and processRepository succeed, the job ends with the status
  \<open>completed\<close> and the number of chunks whose embedding and indexing both succeeded,
  whatever chunk fails, and never sets the status \<open>failed\<close>; the status \<open>failed\<close> is the last
  one when the clone or processRepository throws, with the message of that error. The
  loop of the command-line script counts the same chunks.
\<close>

theorem job_counts_successes:
  "(case clone_result env repositoryUrl branchName localPath tempDir of
      Inl e \<Rightarrow>
        last (status_log (processRepositoryAsync rt env ingestionId repositoryUrl repositoryName
                branchName localPath tempDir)) = (ingestionId, ''failed'', error_message e)
    | Inr repositoryPath \<Rightarrow>
        (case processRepository rt repositoryPath repositoryName of
           Inl e \<Rightarrow>
             last (status_log (processRepositoryAsync rt env ingestionId repositoryUrl
                     repositoryName branchName localPath tempDir)) =
               (ingestionId, ''failed'', error_message e)
         | Inr cs \<Rightarrow>
             (let st = processRepositoryAsync rt env ingestionId repositoryUrl repositoryName
                         branchName localPath tempDir
              in processedCount st = successes env cs
                 \<and> last (status_log st) =
                     (ingestionId, ''completed'',
                      ''Successfully processed '' @ show_nat (successes env cs) @ '' chunks'')
                 \<and> list_all (\<lambda>e. fst (snd e) \<noteq> ''failed'') (status_log st)
                 \<and> saved_metadata st = [(repositoryName, successes env cs)])))
   \<and> script_loop env xs 0 0 = successes env xs"
proof -
  have script: "script_loop env xs 0 0 = successes env xs"
    by (simp add: script_loop_count successes_def)
  have job: "processedCount st = successes env cs
      \<and> last (status_log st) =
          (ingestionId, ''completed'',
           ''Successfully processed '' @ show_nat (successes env cs) @ '' chunks'')
      \<and> list_all (\<lambda>e. fst (snd e) \<noteq> ''failed'') (status_log st)
      \<and> saved_metadata st = [(repositoryName, successes env cs)]"
    if c: "clone_result env repositoryUrl branchName localPath tempDir = Inr repositoryPath"
      and s: "processRepository rt repositoryPath repositoryName = Inr cs"
      and st: "st = processRepositoryAsync rt env ingestionId repositoryUrl repositoryName
                 branchName localPath tempDir"
    for repositoryPath cs st
  proof -
    let ?st3 = "\<lparr>status_log =
        [(ingestionId, ''processing'', ''Cloning repository...''),
         (ingestionId, ''processing'', ''Processing code files...''),
         (ingestionId, ''processing'', ''Generating embeddings...'')],
        saved_metadata = [], processedCount = 0\<rparr>"
    let ?st4 = "index_loop env ingestionId cs 0 ?st3"
    have n: "processedCount ?st4 = successes env cs"
      by (simp add: index_loop_count successes_def)
    obtain extra where l: "status_log ?st4 = status_log ?st3 @ extra"
      and p: "list_all (\<lambda>e. fst (snd e) = ''processing'') extra"
      using index_loop_log [of env ingestionId cs 0 ?st3] by blast
    have m: "saved_metadata ?st4 = []"
      by (simp add: index_loop_saved)
    have "st = ?st4\<lparr>saved_metadata := saved_metadata ?st4 @ [(repositoryName, processedCount ?st4)],
        status_log := status_log ?st4 @
          [(ingestionId, ''completed'',
            ''Successfully processed '' @ show_nat (processedCount ?st4) @ '' chunks'')]\<rparr>"
      unfolding st processRepositoryAsync_def processRepositoryAsync_try_def
      by (simp add: c s Let_def updateIngestionStatus_def saveRepositoryMetadata_def)
    then show ?thesis
      using n l m p by (auto simp: list_all_iff)
  qed
  show ?thesis
    using script job
    by (auto simp: processRepositoryAsync_def processRepositoryAsync_try_def Let_def
        updateIngestionStatus_def split: sum.splits)
qed

theorem job_counts_successes_witness:
  "length (projr (processRepository (example_runtime example_files) ''/local'' ''repo'')) = 10
   \<and> successes example_env
        (projr (processRepository (example_runtime example_files) ''/local'' ''repo'')) = 7
   \<and> last (status_log (processRepositoryAsync (example_runtime example_files) example_env
        ''job-1'' ''url'' ''repo'' ''main'' (Some ''/local'') ''/tmp/x'')) =
       (''job-1'', ''completed'', ''Successfully processed 7 chunks'')
   \<and> last (status_log (processRepositoryAsync (example_runtime example_files) example_env
        ''job-2'' [] ''repo'' ''main'' None ''/tmp/x'')) = (''job-2'', ''failed'', ''clone failed'')
   \<and> last (status_log (processRepositoryAsync (example_runtime example_files) example_env
        ''job-3'' ''url'' ''repo'' ''main'' None ''/gone'')) = (''job-3'', ''failed'', ''scan failed'')"
proof -
  let ?rt = "example_runtime example_files"
  define cs where "cs = projr (processRepository ?rt ''/local'' ''repo'')"
  have c: "clone_result example_env ''url'' ''main'' (Some ''/local'') ''/tmp/x'' = Inr ''/local''"
    by code_simp
  have s: "processRepository ?rt ''/local'' ''repo'' = Inr cs"
    by (simp add: cs_def processRepository_def example_runtime_def)
  have f: "clone_result example_env [] ''main'' None ''/tmp/x'' = Inl (Error ''clone failed'')"
    by code_simp
  have g: "clone_result example_env ''url'' ''main'' None ''/gone'' = Inr ''/gone''"
    by code_simp
  have h: "processRepository ?rt ''/gone'' ''repo'' = Inl (Error ''scan failed'')"
    by (simp add: processRepository_def example_runtime_def)
  have n: "length cs = 10"
    unfolding cs_def by code_simp
  have k: "successes example_env cs = 7"
    unfolding cs_def by code_simp
  have m: "show_nat 7 = ''7''"
    by code_simp
  have "last (status_log (processRepositoryAsync ?rt example_env ''job-1'' ''url'' ''repo'' ''main''
          (Some ''/local'') ''/tmp/x'')) = (''job-1'', ''completed'', ''Successfully processed 7 chunks'')"
    using job_counts_successes [where env = example_env and repositoryUrl = "''url''"
        and branchName = "''main''" and localPath = "Some ''/local''" and tempDir = "''/tmp/x''"
        and rt = ?rt and repositoryName = "''repo''" and xs = "[]" and ingestionId = "''job-1''"]
    unfolding c s sum.case Let_def k m by simp
  moreover have "last (status_log (processRepositoryAsync ?rt example_env ''job-2'' [] ''repo'' ''main''
          None ''/tmp/x'')) = (''job-2'', ''failed'', ''clone failed'')"
    using job_counts_successes [where env = example_env and repositoryUrl = "[]"
        and branchName = "''main''" and localPath = None and tempDir = "''/tmp/x''"
        and rt = ?rt and repositoryName = "''repo''" and xs = "[]" and ingestionId = "''job-2''"]
    unfolding f sum.case by (simp add: error_message_def)
  moreover have "last (status_log (processRepositoryAsync ?rt example_env ''job-3'' ''url'' ''repo''
          ''main'' None ''/gone'')) = (''job-3'', ''failed'', ''scan failed'')"
    using job_counts_successes [where env = example_env and repositoryUrl = "''url''"
        and branchName = "''main''" and localPath = None and tempDir = "''/gone''"
        and rt = ?rt and repositoryName = "''repo''" and xs = "[]" and ingestionId = "''job-3''"]
    unfolding g h sum.case by (simp add: error_message_def)
  ultimately show ?thesis
    using n k unfolding cs_def by simp
qed

end
